theory Spec2Isabelle
  imports Complex_Main "HOL-Library.Word" "HOL-Library.AList" "HOL-Library.Log_Nat"
begin

section \<open>Strings\<close>

text \<open>
  A JavaScript string is a sequence of UTF-16 code units. The validators of
  \<^verbatim>\<open>Form_validation/script.js\<close> look at code units only (\<^verbatim>\<open>length\<close>, \<^verbatim>\<open>trim\<close>,
  \<^verbatim>\<open>split\<close>, regular expressions without the \<^verbatim>\<open>u\<close> flag), so a string is a list of
  16-bit words. \<open>js\<close> writes a literal of the source: it maps every character of an
  Isabelle string to the code unit of the same number; the accented letters of the
  source (all of them in Latin-1) are written as their code units.
\<close>

type_synonym codeunit = "16 word"
type_synonym jsstring = "codeunit list"

definition js :: "string \<Rightarrow> jsstring" where
  "js s = map (\<lambda>c. of_nat (of_char c)) s"

text \<open>
  \<^verbatim>\<open>String.prototype.trim\<close> and the class \<^verbatim>\<open>\s\<close> of a regular expression use the same
  set: the WhiteSpace and LineTerminator code points of ECMAScript.
\<close>

definition isWhiteSpace :: "codeunit \<Rightarrow> bool" where
  "isWhiteSpace c =
     (c = 0x9 \<or> c = 0xA \<or> c = 0xB \<or> c = 0xC \<or> c = 0xD \<or> c = 0x20 \<or> c = 0xA0
      \<or> c = 0x1680 \<or> (0x2000 \<le> c \<and> c \<le> 0x200A) \<or> c = 0x2028 \<or> c = 0x2029
      \<or> c = 0x202F \<or> c = 0x205F \<or> c = 0x3000 \<or> c = 0xFEFF)"

definition trim :: "jsstring \<Rightarrow> jsstring" where
  "trim s = rev (dropWhile isWhiteSpace (rev (dropWhile isWhiteSpace s)))"

text \<open>
  \<^verbatim>\<open>s.split(' ')\<close>, for a separator of one code unit: the pieces between the
  occurrences of the separator, empty pieces included; the empty string gives one
  empty piece.
\<close>

fun split :: "codeunit \<Rightarrow> jsstring \<Rightarrow> jsstring list" where
  "split sep [] = [[]]"
| "split sep (c # cs) =
     (if c = sep then [] # split sep cs
      else (case split sep cs of p # ps \<Rightarrow> (c # p) # ps | [] \<Rightarrow> [[c]]))"

text \<open>\<open>stripPrefix p s\<close> is the rest of \<open>s\<close> after the prefix \<open>p\<close>, if \<open>s\<close> starts with it.\<close>

definition stripPrefix :: "jsstring \<Rightarrow> jsstring \<Rightarrow> jsstring option" where
  "stripPrefix p s = (if take (length p) s = p then Some (drop (length p) s) else None)"

text \<open>Character classes of the regular expressions of the source.\<close>

definition isDigit :: "codeunit \<Rightarrow> bool" where
  "isDigit c = (0x30 \<le> c \<and> c \<le> 0x39)"

definition isLower :: "codeunit \<Rightarrow> bool" where
  "isLower c = (0x61 \<le> c \<and> c \<le> 0x7A)"

definition isUpper :: "codeunit \<Rightarrow> bool" where
  "isUpper c = (0x41 \<le> c \<and> c \<le> 0x5A)"

text \<open>\<^verbatim>\<open>Number\<close> of a one-digit string is the digit.\<close>

definition digitOf :: "codeunit \<Rightarrow> int" where
  "digitOf c = uint c - 48"

text \<open>The decimal value of a string of digits.\<close>

definition digitsValue :: "jsstring \<Rightarrow> int" where
  "digitsValue s = foldl (\<lambda>n c. 10 * n + digitOf c) 0 s"

text \<open>\<^verbatim>\<open>String(n)\<close> for a natural number, as a template literal inserts it.\<close>

fun natToString :: "nat \<Rightarrow> jsstring" where
  "natToString n =
     (if n < 10 then [of_nat (48 + n)]
      else natToString (n div 10) @ [of_nat (48 + n mod 10)])"

section \<open>Messages\<close>

definition msgFullNameRequired :: jsstring where
  "msgFullNameRequired = js ''El nombre completo es requerido''"

definition msgFullNameShort :: jsstring where
  "msgFullNameShort = js ''El nombre debe tener al menos 2 caracteres''"

definition msgFullNameLetters :: jsstring where
  "msgFullNameLetters = js ''El nombre solo puede contener letras y espacios''"

definition msgFullNameSurname :: jsstring where
  "msgFullNameSurname = js ''Debe ingresar nombre y apellido''"

definition msgEmailRequired :: jsstring where
  "msgEmailRequired = js ''El email es requerido''"

definition msgEmailInvalid :: jsstring where
  "msgEmailInvalid = js ''Ingrese un email v'' @ [0xE1] @ js ''lido''"

definition msgPhoneRequired :: jsstring where
  "msgPhoneRequired = js ''El tel'' @ [0xE9] @ js ''fono es requerido''"

definition msgPhoneInvalid :: jsstring where
  "msgPhoneInvalid =
     js ''Formato de tel'' @ [0xE9] @ js ''fono ecuatoriano inv'' @ [0xE1] @ js ''lido''"

definition msgBirthRequired :: jsstring where
  "msgBirthRequired = js ''La fecha de nacimiento es requerida''"

definition msgBirthFuture :: jsstring where
  "msgBirthFuture = js ''La fecha de nacimiento no puede ser futura''"

definition msgBirthInvalid :: jsstring where
  "msgBirthInvalid = js ''Fecha de nacimiento no v'' @ [0xE1] @ js ''lida''"

definition msgBirthAdult :: jsstring where
  "msgBirthAdult = js ''Debe ser mayor de 18 a'' @ [0xF1] @ js ''os''"

definition msgCedulaRequired :: jsstring where
  "msgCedulaRequired = js ''La c'' @ [0xE9] @ js ''dula es requerida''"

definition msgCedulaTenDigits :: jsstring where
  "msgCedulaTenDigits =
     js ''La c'' @ [0xE9] @ js ''dula debe tener exactamente 10 d'' @ [0xED] @ js ''gitos''"

definition msgCedulaProvince :: jsstring where
  "msgCedulaProvince = js ''C'' @ [0xF3] @ js ''digo de provincia inv'' @ [0xE1] @ js ''lido''"

definition msgCedulaInvalid :: jsstring where
  "msgCedulaInvalid =
     js ''N'' @ [0xFA] @ js ''mero de c'' @ [0xE9] @ js ''dula inv'' @ [0xE1] @ js ''lido''"

definition msgPasswordRequired :: jsstring where
  "msgPasswordRequired = js ''La contrase'' @ [0xF1] @ js ''a es requerida''"

definition msgPasswordLength :: jsstring where
  "msgPasswordLength = js ''La contrase'' @ [0xF1] @ js ''a debe tener al menos 8 caracteres''"

definition msgPasswordLower :: jsstring where
  "msgPasswordLower =
     js ''La contrase'' @ [0xF1] @
     js ''a debe contener al menos una letra min'' @ [0xFA] @ js ''scula''"

definition msgPasswordUpper :: jsstring where
  "msgPasswordUpper =
     js ''La contrase'' @ [0xF1] @
     js ''a debe contener al menos una letra may'' @ [0xFA] @ js ''scula''"

definition msgPasswordDigit :: jsstring where
  "msgPasswordDigit =
     js ''La contrase'' @ [0xF1] @
     js ''a debe contener al menos un n'' @ [0xFA] @ js ''mero''"

definition msgPasswordSymbol :: jsstring where
  "msgPasswordSymbol =
     js ''La contrase'' @ [0xF1] @
     js ''a debe contener al menos un s'' @ [0xED] @ js ''mbolo especial''"

definition msgConfirmRequired :: jsstring where
  "msgConfirmRequired = js ''Debe confirmar la contrase'' @ [0xF1] @ js ''a''"

definition msgConfirmMismatch :: jsstring where
  "msgConfirmMismatch = js ''Las contrase'' @ [0xF1] @ js ''as no coinciden''"

definition msgWebsiteInvalid :: jsstring where
  "msgWebsiteInvalid =
     js ''Ingrese una URL v'' @ [0xE1] @ js ''lida (ej: https://ejemplo.com)''"

definition msgSalaryRequired :: jsstring where
  "msgSalaryRequired = js ''El salario es requerido''"

definition msgSalaryNotNumeric :: jsstring where
  "msgSalaryNotNumeric =
     js ''Ingrese un valor num'' @ [0xE9] @ js ''rico v'' @ [0xE1] @ js ''lido''"

definition msgSalaryNegative :: jsstring where
  "msgSalaryNegative = js ''El salario no puede ser negativo''"

definition msgSalaryTooHigh :: jsstring where
  "msgSalaryTooHigh = js ''El salario parece ser demasiado alto''"

definition msgSelectOption :: jsstring where
  "msgSelectOption = js ''Debe seleccionar una opci'' @ [0xF3] @ js ''n''"

definition msgFileRequired :: jsstring where
  "msgFileRequired = js ''Debe seleccionar un archivo''"

definition msgFilePdf :: jsstring where
  "msgFilePdf = js ''El archivo debe ser un PDF''"

definition msgFileSize :: jsstring where
  "msgFileSize = js ''El archivo no debe superar los 5MB''"

definition msgTextareaLong :: jsstring where
  "msgTextareaLong = js ''El comentario no debe superar los 500 caracteres''"

definition msgTermsRequired :: jsstring where
  "msgTermsRequired = js ''Debe aceptar los t'' @ [0xE9] @ js ''rminos y condiciones''"

text \<open>The template literal of \<^verbatim>\<open>validateCheckboxGroup\<close>.\<close>

definition msgCheckboxGroup :: "nat \<Rightarrow> jsstring" where
  "msgCheckboxGroup minRequired =
     js ''Debe seleccionar al menos '' @ natToString minRequired @ js '' opciones''"

section \<open>Text validators\<close>

text \<open>
  A validator returns \<^verbatim>\<open>null\<close> for a valid value (\<open>None\<close>) and a message otherwise.

  \<^verbatim>\<open>/^[a-zA-Z...\s]+$/\<close> of \<^verbatim>\<open>validateFullName\<close>: the letters, the twelve accented
  letters listed in the source, and \<^verbatim>\<open>\s\<close>.
\<close>

definition isNameChar :: "codeunit \<Rightarrow> bool" where
  "isNameChar c =
     (isLower c \<or> isUpper c
      \<or> c = 0xE1 \<or> c = 0xE9 \<or> c = 0xED \<or> c = 0xF3 \<or> c = 0xFA
      \<or> c = 0xC1 \<or> c = 0xC9 \<or> c = 0xCD \<or> c = 0xD3 \<or> c = 0xDA
      \<or> c = 0xF1 \<or> c = 0xD1 \<or> isWhiteSpace c)"

definition namePattern :: "jsstring \<Rightarrow> bool" where
  "namePattern s = (s \<noteq> [] \<and> list_all isNameChar s)"

definition validateFullName :: "jsstring \<Rightarrow> jsstring option" where
  "validateFullName v =
     (if trim v = [] then Some msgFullNameRequired
      else if length (trim v) < 2 then Some msgFullNameShort
      else if \<not> namePattern v then Some msgFullNameLetters
      else if length (split 0x20 (trim v)) < 2 then Some msgFullNameSurname
      else None)"

text \<open>
  \<^verbatim>\<open>/^[^\s@]+@[^\s@]+\.[^\s@]+$/\<close>: a run of the class, an at sign, and a run of the class
  with a dot that is neither its first nor its last code unit.
\<close>

definition isEmailChar :: "codeunit \<Rightarrow> bool" where
  "isEmailChar c = (\<not> isWhiteSpace c \<and> c \<noteq> 0x40)"

definition emailPattern :: "jsstring \<Rightarrow> bool" where
  "emailPattern s =
     (takeWhile isEmailChar s \<noteq> []
      \<and> (case dropWhile isEmailChar s of
            [] \<Rightarrow> False
          | c # d \<Rightarrow> c = 0x40 \<and> list_all isEmailChar d
                     \<and> list_ex (\<lambda>i. d ! i = 0x2E) [1..<length d - 1]))"

definition validateEmail :: "jsstring \<Rightarrow> jsstring option" where
  "validateEmail v =
     (if trim v = [] then Some msgEmailRequired
      else if \<not> emailPattern v then Some msgEmailInvalid
      else None)"

text \<open>
  \<^verbatim>\<open>value.replace(/[\s\-\(\)]/g, '')\<close> and \<^verbatim>\<open>/^(\+593|593|0)?[2-9]\d{8}$/\<close>.
\<close>

definition cleanPhone :: "jsstring \<Rightarrow> jsstring" where
  "cleanPhone v = filter (\<lambda>c. \<not> (isWhiteSpace c \<or> c = 0x2D \<or> c = 0x28 \<or> c = 0x29)) v"

definition localNumber :: "jsstring \<Rightarrow> bool" where
  "localNumber s =
     (case s of
        [] \<Rightarrow> False
      | c # r \<Rightarrow> 0x32 \<le> c \<and> c \<le> 0x39 \<and> length r = 8 \<and> list_all isDigit r)"

definition ecuadorianPattern :: "jsstring \<Rightarrow> bool" where
  "ecuadorianPattern s =
     list_ex (\<lambda>p. case stripPrefix p s of None \<Rightarrow> False | Some r \<Rightarrow> localNumber r)
       [js ''+593'', js ''593'', js ''0'', []]"

definition validatePhone :: "jsstring \<Rightarrow> jsstring option" where
  "validatePhone v =
     (if trim v = [] then Some msgPhoneRequired
      else if \<not> ecuadorianPattern (cleanPhone v) then Some msgPhoneInvalid
      else None)"

text \<open>\<^verbatim>\<open>validateCedula\<close>. \<^verbatim>\<open>/^\d{10}$/\<close>: the whole string is ten decimal digits.\<close>

definition tenDigits :: "jsstring \<Rightarrow> bool" where
  "tenDigits s = (length s = 10 \<and> list_all isDigit s)"

text \<open>
  \<^verbatim>\<open>parseInt\<close> is only applied to \<^verbatim>\<open>cedula.substring(0, 2)\<close> after the test above, that is
  to a string of decimal digits, where it is the decimal value (a leading zero does not
  select another radix).
\<close>

definition parseIntDigits :: "jsstring \<Rightarrow> int" where
  "parseIntDigits s = digitsValue s"

definition coefficients :: "int list" where
  "coefficients = [2, 1, 2, 1, 2, 1, 2, 1, 2]"

text \<open>The body of the loop \<^verbatim>\<open>for (let i = 0; i < 9; i++)\<close> and the loop itself.\<close>

definition checksumStep :: "int list \<Rightarrow> int \<Rightarrow> nat \<Rightarrow> int" where
  "checksumStep digits acc i =
     (let result = digits ! i * coefficients ! i;
          result' = (if result > 9 then result - 9 else result)
      in acc + result')"

definition checksumLoop :: "int list \<Rightarrow> int" where
  "checksumLoop digits = foldl (checksumStep digits) 0 [0..<9]"

definition validateCedula :: "jsstring \<Rightarrow> jsstring option" where
  "validateCedula v =
     (if trim v = [] then Some msgCedulaRequired
      else
        let cedula = trim v in
        if \<not> tenDigits cedula then Some msgCedulaTenDigits
        else
          let digits = map digitOf cedula;
              province = parseIntDigits (take 2 cedula) in
          if province < 1 \<or> province > 24 then Some msgCedulaProvince
          else
            let acc = checksumLoop digits;
                verifierDigit = (if acc mod 10 = 0 then 0 else 10 - acc mod 10) in
            if verifierDigit \<noteq> digits ! 9 then Some msgCedulaInvalid
            else None)"

text \<open>
  \<^verbatim>\<open>validatePassword\<close>. The class of symbols is
  \<^verbatim>\<open>[!@#$%^&*()_+\-=\[\]{};':"\\|,.<>\/?]\<close>; the quotes and the backslash are written as
  code units.
\<close>

definition isSymbol :: "codeunit \<Rightarrow> bool" where
  "isSymbol c =
     (c \<in> set (js ''!@#$%^&*()_+-=[]{};'' @ [0x27] @ js '':'' @ [0x22, 0x5C]
                @ js ''|,.<>/?''))"

definition validatePassword :: "jsstring \<Rightarrow> jsstring option" where
  "validatePassword v =
     (if v = [] then Some msgPasswordRequired
      else if length v < 8 then Some msgPasswordLength
      else if \<not> list_ex isLower v then Some msgPasswordLower
      else if \<not> list_ex isUpper v then Some msgPasswordUpper
      else if \<not> list_ex isDigit v then Some msgPasswordDigit
      else if \<not> list_ex isSymbol v then Some msgPasswordSymbol
      else None)"

text \<open>
  \<^verbatim>\<open>validateWebsite\<close>. The pattern is \<^verbatim>\<open>^https?:\/\/(www\.)?H{1,256}\.T{1,6}\bP*$\<close>
  with the classes \<open>H\<close>, \<open>T\<close> and \<open>P\<close> below. A match exists iff the string starts with
  the scheme and, with or without a leading \<^verbatim>\<open>www.\<close> taken off, the rest splits into
  \<open>h\<close> code units of \<open>H\<close> (1 to 256 of them), a dot, \<open>t\<close> code units of \<open>T\<close> (1 to 6), a
  word boundary, and code units of \<open>P\<close>.
\<close>

definition isAlnum :: "codeunit \<Rightarrow> bool" where
  "isAlnum c = (isLower c \<or> isUpper c \<or> isDigit c)"

definition isWordChar :: "codeunit \<Rightarrow> bool" where
  "isWordChar c = (isAlnum c \<or> c = 0x5F)"

definition isHostChar :: "codeunit \<Rightarrow> bool" where
  "isHostChar c = (isAlnum c \<or> c \<in> set (js ''-@:%._+~#=''))"

definition isTldChar :: "codeunit \<Rightarrow> bool" where
  "isTldChar c = (isAlnum c \<or> c \<in> set (js ''()''))"

definition isPathChar :: "codeunit \<Rightarrow> bool" where
  "isPathChar c = (isAlnum c \<or> c \<in> set (js ''-()@:%_+.~#?&/=''))"

definition wordBoundary :: "jsstring \<Rightarrow> nat \<Rightarrow> bool" where
  "wordBoundary s i =
     ((0 < i \<and> i \<le> length s \<and> isWordChar (s ! (i - 1)))
      \<noteq> (i < length s \<and> isWordChar (s ! i)))"

definition urlRest :: "jsstring \<Rightarrow> bool" where
  "urlRest r =
     list_ex (\<lambda>h.
       list_ex (\<lambda>t.
            h + 1 + t \<le> length r
          \<and> list_all isHostChar (take h r)
          \<and> r ! h = 0x2E
          \<and> list_all isTldChar (take t (drop (h + 1) r))
          \<and> wordBoundary r (h + 1 + t)
          \<and> list_all isPathChar (drop (h + 1 + t) r))
         [1..<7])
       [1..<257]"

definition urlPattern :: "jsstring \<Rightarrow> bool" where
  "urlPattern s =
     (case stripPrefix (js ''http'') s of
        None \<Rightarrow> False
      | Some r0 \<Rightarrow>
          (case stripPrefix (js ''://'')
                  (case stripPrefix (js ''s'') r0 of None \<Rightarrow> r0 | Some r1 \<Rightarrow> r1) of
             None \<Rightarrow> False
           | Some r \<Rightarrow>
               urlRest r
               \<or> (case stripPrefix (js ''www.'') r of None \<Rightarrow> False | Some r' \<Rightarrow> urlRest r')))"

definition validateWebsite :: "jsstring \<Rightarrow> jsstring option" where
  "validateWebsite v =
     (if trim v = [] then None
      else if \<not> urlPattern v then Some msgWebsiteInvalid
      else None)"

text \<open>
  \<^verbatim>\<open>validateSelect\<close>: \<^verbatim>\<open>!value || value === ''\<close>, two tests that a string fails together.
  \<^verbatim>\<open>validateTextarea\<close>: \<^verbatim>\<open>value && value.length > 500\<close>.
\<close>

definition validateSelect :: "jsstring \<Rightarrow> jsstring option" where
  "validateSelect v = (if v = [] \<or> v = [] then Some msgSelectOption else None)"

definition validateTextarea :: "jsstring \<Rightarrow> jsstring option" where
  "validateTextarea v = (if v \<noteq> [] \<and> length v > 500 then Some msgTextareaLong else None)"

section \<open>Numbers and \<^verbatim>\<open>parseFloat\<close>\<close>

text \<open>
  A Number is a binary64 value. \<open>Finite q\<close> is the finite value \<open>q\<close>; the two zeros are
  one value here, since the source only compares Numbers (\<^verbatim>\<open><\<close>, \<^verbatim>\<open>>\<close>, \<^verbatim>\<open>isNaN\<close>) and
  the comparisons do not tell them apart.
\<close>

datatype number = NaN | PosInfinity | NegInfinity | Finite rat

definition isNaN :: "number \<Rightarrow> bool" where
  "isNaN x = (x = NaN)"

fun numLess :: "number \<Rightarrow> number \<Rightarrow> bool" where
  "numLess NaN _ = False"
| "numLess _ NaN = False"
| "numLess PosInfinity _ = False"
| "numLess _ NegInfinity = False"
| "numLess NegInfinity _ = True"
| "numLess _ PosInfinity = True"
| "numLess (Finite a) (Finite b) = (a < b)"

definition pow2 :: "int \<Rightarrow> rat" where
  "pow2 e = (if 0 \<le> e then 2 ^ nat e else 1 / 2 ^ nat (- e))"

definition pow10 :: "int \<Rightarrow> rat" where
  "pow10 e = (if 0 \<le> e then 10 ^ nat e else 1 / 10 ^ nat (- e))"

text \<open>For \<open>0 < a\<close>, the exponent \<open>e\<close> with \<open>2 ^ e \<le> a < 2 ^ (e + 1)\<close>.\<close>

definition floorLog2 :: "rat \<Rightarrow> int" where
  "floorLog2 a =
     (if 1 \<le> a then bitlen \<lfloor>a\<rfloor> - 1
      else let c = - bitlen \<lfloor>1 / a\<rfloor> in if pow2 (c + 1) \<le> a then c + 1 else c)"

definition roundHalfEven :: "rat \<Rightarrow> int" where
  "roundHalfEven x =
     (let f = \<lfloor>x\<rfloor>; r = x - of_int f
      in if r < 1 / 2 then f else if 1 / 2 < r then f + 1 else if even f then f else f + 1)"

text \<open>
  The Number value of a real: round to nearest, ties to even, in binary64 (53 bits of
  significand, exponents from \<open>-1022\<close> with subnormals, overflow at \<open>2 ^ 1024\<close>).
\<close>

definition toNumber :: "rat \<Rightarrow> number" where
  "toNumber x =
     (if x = 0 then Finite 0
      else
        let a = \<bar>x\<bar>;
            e = max (floorLog2 a) (- 1022);
            ulp = pow2 (e - 52);
            r = of_int (roundHalfEven (a / ulp)) * ulp
        in if pow2 1024 \<le> r then (if x < 0 then NegInfinity else PosInfinity)
           else Finite (if x < 0 then - r else r))"

text \<open>
  \<^verbatim>\<open>parseFloat(string)\<close>: leading white space is skipped, and the longest prefix of the
  rest that is a \<open>StrDecimalLiteral\<close> (a sign, then \<^verbatim>\<open>Infinity\<close> or digits with an optional
  fraction and an optional exponent) is converted; what follows it is ignored, and the
  result is \<^verbatim>\<open>NaN\<close> when no prefix is such a literal. The conversion rounds the exact
  decimal value (engines round literals of more than 20 significant digits exactly
  too, which the language leaves to them).
\<close>

definition exponentPart :: "jsstring \<Rightarrow> int" where
  "exponentPart s =
     (case s of
        [] \<Rightarrow> 0
      | c # r \<Rightarrow>
          if c = 0x65 \<or> c = 0x45 then
            (case r of
               [] \<Rightarrow> 0
             | d # r' \<Rightarrow>
                 if d = 0x2B \<and> takeWhile isDigit r' \<noteq> [] then digitsValue (takeWhile isDigit r')
                 else if d = 0x2D \<and> takeWhile isDigit r' \<noteq> []
                   then - digitsValue (takeWhile isDigit r')
                 else digitsValue (takeWhile isDigit r))
          else 0)"

definition unsignedLiteral :: "jsstring \<Rightarrow> rat option" where
  "unsignedLiteral s =
     (let ip = takeWhile isDigit s;
          r1 = dropWhile isDigit s;
          hasDot = (r1 \<noteq> [] \<and> hd r1 = 0x2E);
          fp = (if hasDot then takeWhile isDigit (tl r1) else []);
          r2 = (if hasDot then dropWhile isDigit (tl r1) else r1)
      in if ip = [] \<and> fp = [] then None
         else Some (of_int (digitsValue (ip @ fp))
                    * pow10 (exponentPart r2 - int (length fp))))"

definition parseFloat :: "jsstring \<Rightarrow> number" where
  "parseFloat s =
     (let t = dropWhile isWhiteSpace s;
          neg = (t \<noteq> [] \<and> hd t = 0x2D);
          u = (if t \<noteq> [] \<and> (hd t = 0x2D \<or> hd t = 0x2B) then tl t else t)
      in if stripPrefix (js ''Infinity'') u \<noteq> None
         then (if neg then NegInfinity else PosInfinity)
         else (case unsignedLiteral u of
                 None \<Rightarrow> NaN
               | Some m \<Rightarrow> toNumber (if neg then - m else m)))"

definition validateSalary :: "jsstring \<Rightarrow> jsstring option" where
  "validateSalary v =
     (if v = [] then Some msgSalaryRequired
      else
        let salary = parseFloat v in
        if isNaN salary then Some msgSalaryNotNumeric
        else if numLess salary (Finite 0) then Some msgSalaryNegative
        else if numLess (Finite 1000000) salary then Some msgSalaryTooHigh
        else None)"

section \<open>Dates\<close>

text \<open>
  A time value is a number of milliseconds since the epoch, in UTC; the time value of a
  \<^verbatim>\<open>Date\<close> is a time value or \<^verbatim>\<open>NaN\<close> (\<open>None\<close>). The functions below are those of the
  language definition (Day, TimeWithinDay, DaysInYear, DayFromYear, YearFromTime,
  MonthFromTime, DateFromTime, MakeDay, MakeDate, TimeClip).
\<close>

type_synonym timevalue = "int option"

definition msPerDay :: int where
  "msPerDay = 86400000"

definition Day :: "int \<Rightarrow> int" where
  "Day t = t div msPerDay"

definition TimeWithinDay :: "int \<Rightarrow> int" where
  "TimeWithinDay t = t mod msPerDay"

definition DaysInYear :: "int \<Rightarrow> int" where
  "DaysInYear y =
     (if y mod 4 \<noteq> 0 then 365 else if y mod 100 \<noteq> 0 then 366
      else if y mod 400 \<noteq> 0 then 365 else 366)"

definition DayFromYear :: "int \<Rightarrow> int" where
  "DayFromYear y =
     365 * (y - 1970) + (y - 1969) div 4 - (y - 1901) div 100 + (y - 1601) div 400"

text \<open>
  YearFromTime is the largest year that starts at or before the time. A year has 365
  or 366 days, so it lies between the two bounds searched here.
\<close>

definition YearFromTime :: "int \<Rightarrow> int" where
  "YearFromTime t =
     (let d = Day t;
          lo = 1970 + min (d div 365) (d div 366);
          hi = 1970 + max (d div 365) (d div 366)
      in foldl (\<lambda>best y. if DayFromYear y \<le> d then y else best) lo [lo..hi])"

definition DayWithinYear :: "int \<Rightarrow> int" where
  "DayWithinYear t = Day t - DayFromYear (YearFromTime t)"

text \<open>The number of days of a year before each of its months (0 is January).\<close>

definition daysBeforeMonth :: "bool \<Rightarrow> int \<Rightarrow> int" where
  "daysBeforeMonth leap m =
     (let l = (if leap then 1 else 0)
      in if m = 0 then 0 else if m = 1 then 31 else if m = 2 then 59 + l
         else if m = 3 then 90 + l else if m = 4 then 120 + l else if m = 5 then 151 + l
         else if m = 6 then 181 + l else if m = 7 then 212 + l else if m = 8 then 243 + l
         else if m = 9 then 273 + l else if m = 10 then 304 + l else 334 + l)"

definition InLeapYear :: "int \<Rightarrow> bool" where
  "InLeapYear t = (DaysInYear (YearFromTime t) = 366)"

definition MonthFromTime :: "int \<Rightarrow> int" where
  "MonthFromTime t =
     (let d = DayWithinYear t; leap = InLeapYear t
      in foldl (\<lambda>best m. if daysBeforeMonth leap m \<le> d then m else best) 0 [0..11])"

definition DateFromTime :: "int \<Rightarrow> int" where
  "DateFromTime t = DayWithinYear t - daysBeforeMonth (InLeapYear t) (MonthFromTime t) + 1"

definition MakeDay :: "int \<Rightarrow> int \<Rightarrow> int \<Rightarrow> int" where
  "MakeDay year month date =
     (let ym = year + month div 12; mn = month mod 12
      in DayFromYear ym + daysBeforeMonth (DaysInYear ym = 366) mn + date - 1)"

definition MakeDate :: "int \<Rightarrow> int \<Rightarrow> int" where
  "MakeDate day time = day * msPerDay + time"

definition TimeClip :: "int \<Rightarrow> timevalue" where
  "TimeClip t = (if \<bar>t\<bar> > 8640000000000000 then None else Some t)"

text \<open>
  The date-only form \<^verbatim>\<open>YYYY-MM-DD\<close> of the date-time string format, which
  \<^verbatim>\<open>Date.parse\<close> reads as midnight UTC of that day. A string that is not of this form,
  or names a day its month does not have, is left to the host.
\<close>

definition daysInMonth :: "int \<Rightarrow> int \<Rightarrow> int" where
  "daysInMonth y m =
     (if m = 2 then (if DaysInYear y = 366 then 29 else 28)
      else if m = 4 \<or> m = 6 \<or> m = 9 \<or> m = 11 then 30 else 31)"

definition parseDateOnly :: "jsstring \<Rightarrow> int option" where
  "parseDateOnly s =
     (if length s = 10 \<and> list_all isDigit (take 4 s) \<and> s ! 4 = 0x2D
         \<and> list_all isDigit (take 2 (drop 5 s)) \<and> s ! 7 = 0x2D
         \<and> list_all isDigit (drop 8 s)
      then
        let y = digitsValue (take 4 s);
            m = digitsValue (take 2 (drop 5 s));
            d = digitsValue (drop 8 s)
        in if 1 \<le> m \<and> m \<le> 12 \<and> 1 \<le> d \<and> d \<le> daysInMonth y m
           then Some (MakeDate (MakeDay y (m - 1) d) 0)
           else None
      else None)"

section \<open>The host: document, clock and time zone\<close>

text \<open>
  What the validator reads from its environment. Of the document it reads the form
  controls: \<^verbatim>\<open>getElementById\<close>, the list \<^verbatim>\<open>querySelectorAll('input[name="..."]')\<close> in
  document order (\<^verbatim>\<open>querySelector\<close> is its first element), and whether the form has a
  submit button. Of a control it reads \<^verbatim>\<open>value\<close>, \<^verbatim>\<open>checked\<close> and \<^verbatim>\<open>files\<close> (\<^verbatim>\<open>null\<close>, here
  \<open>None\<close>, on a control that is not a file input); of a file its \<^verbatim>\<open>type\<close> and \<^verbatim>\<open>size\<close>.
\<close>

record jsfile =
  fileType :: jsstring
  fileSize :: nat

record element =
  elValue :: jsstring
  elChecked :: bool
  elFiles :: "jsfile list option"

record document =
  byId :: "jsstring \<Rightarrow> element option"
  inputsByName :: "jsstring \<Rightarrow> element list"
  hasSubmitButton :: bool

text \<open>
  \<open>nowToday\<close>, \<open>nowMin\<close> and \<open>nowMax\<close> are the readings of the clock by the three
  \<^verbatim>\<open>new Date()\<close> of \<^verbatim>\<open>validateBirthDate\<close>, in the order of the source. \<open>localTime\<close> and
  \<open>utcTime\<close> are the conversions LocalTime and UTC of the host's time zone, and
  \<open>parseOther\<close> is what the host's \<^verbatim>\<open>Date.parse\<close> makes of a string that is not a
  date-only string of the standard format (\<open>None\<close> is \<^verbatim>\<open>NaN\<close>).
\<close>

record host =
  dom :: document
  nowToday :: int
  nowMin :: int
  nowMax :: int
  localTime :: "int \<Rightarrow> int"
  utcTime :: "int \<Rightarrow> int"
  parseOther :: "jsstring \<Rightarrow> int option"

datatype exn = TypeError

text \<open>\<^verbatim>\<open>new Date(value)\<close>, \<^verbatim>\<open>getFullYear\<close> and \<^verbatim>\<open>setFullYear\<close> on a valid date.\<close>

definition newDate :: "host \<Rightarrow> jsstring \<Rightarrow> timevalue" where
  "newDate H v =
     (case parseDateOnly v of
        Some t \<Rightarrow> TimeClip t
      | None \<Rightarrow> (case parseOther H v of None \<Rightarrow> None | Some t \<Rightarrow> TimeClip t))"

definition getFullYear :: "host \<Rightarrow> int \<Rightarrow> int" where
  "getFullYear H t = YearFromTime (localTime H t)"

definition setFullYear :: "host \<Rightarrow> int \<Rightarrow> int \<Rightarrow> timevalue" where
  "setFullYear H t y =
     (let lt = localTime H t;
          newDate = MakeDate (MakeDay y (MonthFromTime lt) (DateFromTime lt)) (TimeWithinDay lt)
      in TimeClip (utcTime H newDate))"

text \<open>\<^verbatim>\<open>a < b\<close> and \<^verbatim>\<open>a > b\<close> on dates compare the time values; with \<^verbatim>\<open>NaN\<close> both are false.\<close>

definition dateLess :: "timevalue \<Rightarrow> timevalue \<Rightarrow> bool" where
  "dateLess a b = (case (a, b) of (Some x, Some y) \<Rightarrow> x < y | _ \<Rightarrow> False)"

definition dateGreater :: "timevalue \<Rightarrow> timevalue \<Rightarrow> bool" where
  "dateGreater a b = dateLess b a"

definition validateBirthDate :: "host \<Rightarrow> jsstring \<Rightarrow> jsstring option" where
  "validateBirthDate H v =
     (if v = [] then Some msgBirthRequired
      else
        let birthDate = newDate H v;
            today = Some (nowToday H);
            minDate = setFullYear H (nowMin H) (getFullYear H (nowToday H) - 100);
            maxDate = setFullYear H (nowMax H) (getFullYear H (nowToday H) - 18)
        in if dateGreater birthDate today then Some msgBirthFuture
           else if dateLess birthDate minDate then Some msgBirthInvalid
           else if dateGreater birthDate maxDate then Some msgBirthAdult
           else None)"

section \<open>Validators that read the document\<close>

text \<open>
  Reading a property of \<^verbatim>\<open>null\<close> throws a \<^verbatim>\<open>TypeError\<close>: \<open>Inl TypeError\<close>.
\<close>

definition validateConfirmPassword :: "host \<Rightarrow> jsstring \<Rightarrow> exn + jsstring option" where
  "validateConfirmPassword H v =
     (case byId (dom H) (js ''password'') of
        None \<Rightarrow> Inl TypeError
      | Some passwordField \<Rightarrow>
          let password = elValue passwordField in
          if v = [] then Inr (Some msgConfirmRequired)
          else if v \<noteq> password then Inr (Some msgConfirmMismatch)
          else Inr None)"

definition validateRadioGroup :: "host \<Rightarrow> jsstring \<Rightarrow> jsstring option" where
  "validateRadioGroup H name =
     (let radioButtons = inputsByName (dom H) name;
          checked = list_ex elChecked radioButtons
      in if \<not> checked then Some msgSelectOption else None)"

definition validateCheckboxGroup :: "host \<Rightarrow> jsstring \<Rightarrow> nat \<Rightarrow> jsstring option" where
  "validateCheckboxGroup H name minRequired =
     (let checkboxes = inputsByName (dom H) name;
          checkedCount = length (filter elChecked checkboxes)
      in if checkedCount < minRequired then Some (msgCheckboxGroup minRequired) else None)"

definition validateFile :: "host \<Rightarrow> jsstring \<Rightarrow> exn + jsstring option" where
  "validateFile H fieldName =
     (case byId (dom H) fieldName of
        None \<Rightarrow> Inl TypeError
      | Some fileInput \<Rightarrow>
          (case elFiles fileInput of
             None \<Rightarrow> Inl TypeError
           | Some [] \<Rightarrow> Inr (Some msgFileRequired)
           | Some (file # _) \<Rightarrow>
               if fieldName = js ''cv'' \<and> fileType file \<noteq> js ''application/pdf''
               then Inr (Some msgFilePdf)
               else if fileSize file > 5 * 1024 * 1024 then Inr (Some msgFileSize)
               else Inr None))"

definition validateCheckbox :: "host \<Rightarrow> jsstring \<Rightarrow> exn + jsstring option" where
  "validateCheckbox H fieldName =
     (case byId (dom H) fieldName of
        None \<Rightarrow> Inl TypeError
      | Some checkbox \<Rightarrow>
          if \<not> elChecked checkbox then Inr (Some msgTermsRequired) else Inr None)"

section \<open>The rule registry and the validator object\<close>

text \<open>
  A rule descriptor, with the two members the source reads or the specification names
  (\<^verbatim>\<open>minLength\<close> and \<^verbatim>\<open>pattern\<close> of two descriptors are never read). A \<^verbatim>\<open>Map\<close> keeps its
  keys in insertion order: it is an association list, \<^verbatim>\<open>set\<close> is \<^const>\<open>AList.update\<close>
  (the value of a present key is replaced in place, a new key goes last) and \<^verbatim>\<open>delete\<close>
  is \<^const>\<open>AList.delete\<close>.
\<close>

record descriptor =
  required :: bool
  validate :: "(host \<Rightarrow> jsstring \<Rightarrow> exn + jsstring option) option"

type_synonym registry = "(jsstring \<times> descriptor) list"

definition rule :: "bool \<Rightarrow> (host \<Rightarrow> jsstring \<Rightarrow> exn + jsstring option) \<Rightarrow> descriptor" where
  "rule r f = \<lparr>required = r, validate = Some f\<rparr>"

definition setupValidators :: registry where
  "setupValidators =
     [(js ''fullName'', rule True (\<lambda>H v. Inr (validateFullName v))),
      (js ''email'', rule True (\<lambda>H v. Inr (validateEmail v))),
      (js ''phone'', rule True (\<lambda>H v. Inr (validatePhone v))),
      (js ''birthDate'', rule True (\<lambda>H v. Inr (validateBirthDate H v))),
      (js ''cedula'', rule True (\<lambda>H v. Inr (validateCedula v))),
      (js ''password'', rule True (\<lambda>H v. Inr (validatePassword v))),
      (js ''confirmPassword'', rule True (\<lambda>H v. validateConfirmPassword H v)),
      (js ''website'', rule False (\<lambda>H v. Inr (validateWebsite v))),
      (js ''salary'', rule True (\<lambda>H v. Inr (validateSalary v))),
      (js ''country'', rule True (\<lambda>H v. Inr (validateSelect v))),
      (js ''gender'', rule True (\<lambda>H v. Inr (validateRadioGroup H (js ''gender'')))),
      (js ''interests'', rule True (\<lambda>H v. Inr (validateCheckboxGroup H (js ''interests'') 2))),
      (js ''cv'', rule True (\<lambda>H v. validateFile H (js ''cv''))),
      (js ''comments'', rule False (\<lambda>H v. Inr (validateTextarea v))),
      (js ''terms'', rule True (\<lambda>H v. validateCheckbox H (js ''terms'')))]"

record formValidator =
  validators :: registry
  errors :: "(jsstring \<times> jsstring) list"
  isSubmitting :: bool

text \<open>The constructor: \<^verbatim>\<open>init\<close> fills the registry; the other members start empty.\<close>

definition newFormValidator :: formValidator where
  "newFormValidator = \<lparr>validators = setupValidators, errors = [], isSubmitting = False\<rparr>"

text \<open>
  \<^verbatim>\<open>showError\<close>, \<^verbatim>\<open>clearError\<close> and \<^verbatim>\<open>clearAllErrors\<close> also write the message nodes and the
  style classes of the page, which nothing in the validator reads back but
  \<^verbatim>\<open>focusFirstError\<close>; the model keeps their effect on the \<^verbatim>\<open>errors\<close> map.
\<close>

definition showError :: "jsstring \<Rightarrow> jsstring \<Rightarrow> formValidator \<Rightarrow> formValidator" where
  "showError fieldName message s = s\<lparr>errors := AList.update fieldName message (errors s)\<rparr>"

definition clearError :: "jsstring \<Rightarrow> formValidator \<Rightarrow> formValidator" where
  "clearError fieldName s = s\<lparr>errors := AList.delete fieldName (errors s)\<rparr>"

definition clearAllErrors :: "formValidator \<Rightarrow> formValidator" where
  "clearAllErrors s = s\<lparr>errors := []\<rparr>"

text \<open>
  The value \<^verbatim>\<open>validateField\<close> passes to the validator: that of the element with the
  field's id, else of the first input with the field's name, else the empty string.
\<close>

definition fieldValue :: "document \<Rightarrow> jsstring \<Rightarrow> jsstring" where
  "fieldValue D fieldName =
     (case byId D fieldName of
        Some field \<Rightarrow> elValue field
      | None \<Rightarrow> (case inputsByName D fieldName of field # _ \<Rightarrow> elValue field | [] \<Rightarrow> []))"

text \<open>\<^verbatim>\<open>if (error)\<close>: \<^verbatim>\<open>null\<close> and the empty string are falsy.\<close>

definition truthy :: "jsstring option \<Rightarrow> bool" where
  "truthy e = (e \<noteq> None \<and> e \<noteq> Some [])"

text \<open>
  \<^verbatim>\<open>validateField(fieldName)\<close> returns its boolean, or throws what the validator throws,
  and the state it leaves.
\<close>

definition validateField ::
    "host \<Rightarrow> jsstring \<Rightarrow> formValidator \<Rightarrow> (exn + bool) \<times> formValidator" where
  "validateField H fieldName s =
     (case map_of (validators s) fieldName of
        None \<Rightarrow> (Inr True, s)
      | Some validator \<Rightarrow>
          (case (case validate validator of
                   None \<Rightarrow> Inr None
                 | Some f \<Rightarrow> f H (fieldValue (dom H) fieldName)) of
             Inl e \<Rightarrow> (Inl e, s)
           | Inr error \<Rightarrow>
               if truthy error then (Inr False, showError fieldName (the error) s)
               else (Inr True, clearError fieldName s)))"

text \<open>
  \<^verbatim>\<open>validateForm()\<close>: the loop over \<^verbatim>\<open>this.validators.keys()\<close>, with the flag \<^verbatim>\<open>isValid\<close>.
\<close>

fun validateFormLoop ::
    "host \<Rightarrow> jsstring list \<Rightarrow> bool \<Rightarrow> formValidator \<Rightarrow> (exn + bool) \<times> formValidator" where
  "validateFormLoop H [] isValid s = (Inr isValid, s)"
| "validateFormLoop H (fieldName # rest) isValid s =
     (case validateField H fieldName s of
        (Inl e, s') \<Rightarrow> (Inl e, s')
      | (Inr ok, s') \<Rightarrow> validateFormLoop H rest (if \<not> ok then False else isValid) s')"

definition validateForm :: "host \<Rightarrow> formValidator \<Rightarrow> (exn + bool) \<times> formValidator" where
  "validateForm H s = validateFormLoop H (map fst (validators s)) True s"

definition getErrors :: "formValidator \<Rightarrow> (jsstring \<times> jsstring) list" where
  "getErrors s = errors s"

definition isValid :: "formValidator \<Rightarrow> bool" where
  "isValid s = (length (errors s) = 0)"

section \<open>The orchestrator\<close>

text \<open>
  JavaScript runs one event handler at a time, to its end or to an \<^verbatim>\<open>await\<close>. The only
  \<^verbatim>\<open>await\<close> of the source is that of \<^verbatim>\<open>simulateSubmission()\<close> in \<^verbatim>\<open>handleSubmit\<close>. The
  state of the system is the validator object, the number of calls of \<^verbatim>\<open>handleSubmit\<close>
  suspended at that \<^verbatim>\<open>await\<close>, and two counters that the source does not have: the
  calls of the transport \<^verbatim>\<open>simulateSubmission\<close> and the runs of \<^verbatim>\<open>validateForm\<close> made by
  \<^verbatim>\<open>handleSubmit\<close>.
\<close>

record system =
  fv :: formValidator
  pending :: nat
  transportCalls :: nat
  formRuns :: nat

definition initial :: system where
  "initial = \<lparr>fv = newFormValidator, pending = 0, transportCalls = 0, formRuns = 0\<rparr>"

text \<open>
  \<^verbatim>\<open>handleSubmit\<close> up to its \<^verbatim>\<open>await\<close> or its end. With the flag set it returns before the
  \<^verbatim>\<open>try\<close>. Without a submit button, \<^verbatim>\<open>submitBtn.disabled = true\<close> throws after the flag is
  set, and \<^verbatim>\<open>finally\<close> resets the flag. When \<^verbatim>\<open>validateForm\<close> throws or returns
  \<^verbatim>\<open>false\<close>, \<^verbatim>\<open>finally\<close> resets the flag as well. Otherwise the transport is called and
  the handler is suspended with the flag set.
\<close>

definition handleSubmit :: "host \<Rightarrow> system \<Rightarrow> system" where
  "handleSubmit H sys =
     (if isSubmitting (fv sys) then sys
      else if \<not> hasSubmitButton (dom H)
        then sys\<lparr>fv := (fv sys)\<lparr>isSubmitting := False\<rparr>\<rparr>
      else
        (case validateForm H ((fv sys)\<lparr>isSubmitting := True\<rparr>) of
           (Inr True, s') \<Rightarrow>
             sys\<lparr>fv := s', pending := pending sys + 1,
                 transportCalls := transportCalls sys + 1, formRuns := formRuns sys + 1\<rparr>
         | (_, s') \<Rightarrow>
             sys\<lparr>fv := s'\<lparr>isSubmitting := False\<rparr>, formRuns := formRuns sys + 1\<rparr>))"

text \<open>
  The rest of \<^verbatim>\<open>handleSubmit\<close>, when the awaited transport settles: the success message
  or the \<^verbatim>\<open>catch\<close>, then \<^verbatim>\<open>finally\<close>.
\<close>

definition resumeSubmit :: "system \<Rightarrow> system" where
  "resumeSubmit sys = sys\<lparr>fv := (fv sys)\<lparr>isSubmitting := False\<rparr>, pending := pending sys - 1\<rparr>"

text \<open>
  The events: the listeners of \<^verbatim>\<open>bindEvents\<close> (\<^verbatim>\<open>input\<close> with the target's name;
  \<^verbatim>\<open>change\<close> with the target's name and whether it is a radio button or a checkbox;
  \<^verbatim>\<open>submit\<close>; \<^verbatim>\<open>reset\<close>), the settling of the transport, and the calls of the public
  methods \<^verbatim>\<open>validateField\<close>, \<^verbatim>\<open>validateForm\<close> and \<^verbatim>\<open>reset\<close>.
\<close>

datatype event =
    InputEvent jsstring
  | ChangeEvent jsstring bool
  | SubmitEvent
  | ResetEvent
  | TransportSettled
  | CallValidateField jsstring
  | CallValidateForm
  | CallReset

definition onField :: "host \<Rightarrow> jsstring \<Rightarrow> system \<Rightarrow> system" where
  "onField H name sys = sys\<lparr>fv := snd (validateField H name (fv sys))\<rparr>"

fun step :: "host \<Rightarrow> event \<Rightarrow> system \<Rightarrow> system" where
  "step H (InputEvent name) sys =
     (if name \<noteq> [] \<and> map_of (validators (fv sys)) name \<noteq> None then onField H name sys
      else sys)"
| "step H (ChangeEvent name radioOrCheckbox) sys =
     (if radioOrCheckbox \<and> map_of (validators (fv sys)) name \<noteq> None then onField H name sys
      else sys)"
| "step H SubmitEvent sys = handleSubmit H sys"
| "step H ResetEvent sys = sys\<lparr>fv := clearAllErrors (fv sys)\<rparr>"
| "step H TransportSettled sys = resumeSubmit sys"
| "step H (CallValidateField name) sys = onField H name sys"
| "step H CallValidateForm sys = sys\<lparr>fv := snd (validateForm H (fv sys))\<rparr>"
| "step H CallReset sys = sys\<lparr>fv := clearAllErrors (clearAllErrors (fv sys))\<rparr>"

text \<open>
  The states the system reaches: a transport settles only while a call is suspended on
  it; every other event can come at any time, with any host.
\<close>

inductive reachable :: "system \<Rightarrow> bool" where
  start: "reachable initial"
| settle: "reachable sys \<Longrightarrow> 0 < pending sys \<Longrightarrow> reachable (step H TransportSettled sys)"
| event: "reachable sys \<Longrightarrow> e \<noteq> TransportSettled \<Longrightarrow> reachable (step H e sys)"

section \<open>The rules as the specification words them\<close>

text \<open>
  The verifier of the national ID: the products of the first nine digits with the
  alternating coefficients, each reduced by 9 when above 9, are summed, and the verifier
  is 0 when the sum is a multiple of 10 and 10 minus the last digit of the sum otherwise.
\<close>

definition specVerifier :: "int list \<Rightarrow> int" where
  "specVerifier ds =
     (let s = sum_list (map (\<lambda>(d, k). if d * k > 9 then d * k - 9 else d * k)
                         (zip (take 9 ds) [2, 1, 2, 1, 2, 1, 2, 1, 2]))
      in if s mod 10 = 0 then 0 else 10 - s mod 10)"

definition specCedulaAccepted :: "jsstring \<Rightarrow> bool" where
  "specCedulaAccepted v =
     (length v = 10 \<and> list_all isDigit v
      \<and> 1 \<le> 10 * digitOf (v ! 0) + digitOf (v ! 1)
      \<and> 10 * digitOf (v ! 0) + digitOf (v ! 1) \<le> 24
      \<and> specVerifier (map digitOf v) = digitOf (v ! 9))"








text \<open>
  Calling \<^verbatim>\<open>validateField\<close> on every field identifier of a list, in the order of the
  list and whatever the results are: the results in that order, and the state left.
\<close>

fun visitAll ::
    "host \<Rightarrow> jsstring list \<Rightarrow> formValidator \<Rightarrow> (exn + bool) list \<times> formValidator" where
  "visitAll H [] s = ([], s)"
| "visitAll H (fieldName # rest) s =
     (let (r, s1) = validateField H fieldName s;
          (rs, s2) = visitAll H rest s1
      in (r # rs, s2))"

section \<open>Invariants\<close>

text \<open>The registry never changes and the keys of the error map stay inside it.\<close>

definition registered :: "system \<Rightarrow> bool" where
  "registered sys =
     (validators (fv sys) = setupValidators
      \<and> fst ` set (errors (fv sys)) \<subseteq> fst ` set setupValidators)"

text \<open>At most one call is suspended, and the flag is set exactly while one is.\<close>

definition singleFlight :: "system \<Rightarrow> bool" where
  "singleFlight sys = (pending sys \<le> 1 \<and> (isSubmitting (fv sys) \<longleftrightarrow> pending sys = 1))"

section \<open>Sample hosts\<close>

text \<open>
  Hosts on which the theorems below are run. Two browsers with a page without controls:
  one in Quito (UTC-5) at 20:00 on 3 November 2026, that is 2026-11-04T01:00:00Z, and
  one in Tokyo (UTC+9) at 08:00 on 3 November 2026, that is 2026-11-02T23:00:00Z. Their
  \<^verbatim>\<open>Date.parse\<close> reads the date-only strings and nothing else.
\<close>

definition emptyDocument :: document where
  "emptyDocument = \<lparr>byId = (\<lambda>_. None), inputsByName = (\<lambda>_. []), hasSubmitButton = True\<rparr>"

definition quitoEvening :: host where
  "quitoEvening =
     \<lparr>dom = emptyDocument,
      nowToday = 1793754000000, nowMin = 1793754000000, nowMax = 1793754000000,
      localTime = (\<lambda>t. t - 18000000), utcTime = (\<lambda>t. t + 18000000),
      parseOther = (\<lambda>_. None)\<rparr>"

definition tokyoMorning :: host where
  "tokyoMorning =
     \<lparr>dom = emptyDocument,
      nowToday = 1793660400000, nowMin = 1793660400000, nowMax = 1793660400000,
      localTime = (\<lambda>t. t + 32400000), utcTime = (\<lambda>t. t - 32400000),
      parseOther = (\<lambda>_. None)\<rparr>"

text \<open>
  The registration form of the page, untouched: every control is there and blank, the
  radio buttons of \<^verbatim>\<open>gender\<close> and the checkboxes of \<^verbatim>\<open>interests\<close> are found by name.
\<close>

definition control :: "jsstring \<Rightarrow> element" where
  "control v = \<lparr>elValue = v, elChecked = False, elFiles = None\<rparr>"

definition formControls :: "(jsstring \<times> element) list \<Rightarrow> (jsstring \<times> element list) list \<Rightarrow> document"
  where
  "formControls ids names =
     \<lparr>byId = map_of ids,
      inputsByName = (\<lambda>n. case map_of names n of None \<Rightarrow> [] | Some es \<Rightarrow> es),
      hasSubmitButton = True\<rparr>"

definition blankDocument :: document where
  "blankDocument =
     formControls
       [(js ''fullName'', control []), (js ''email'', control []), (js ''phone'', control []),
        (js ''birthDate'', control []), (js ''cedula'', control []),
        (js ''password'', control []), (js ''confirmPassword'', control []),
        (js ''website'', control []), (js ''salary'', control []),
        (js ''country'', control []), (js ''cv'', (control [])\<lparr>elFiles := Some []\<rparr>),
        (js ''comments'', control []), (js ''terms'', control (js ''on''))]
       [(js ''gender'', [control (js ''M''), control (js ''F'')]),
        (js ''interests'', [control (js ''a''), control (js ''b''), control (js ''c'')])]"

definition blankHost :: host where
  "blankHost = quitoEvening\<lparr>dom := blankDocument\<rparr>"

text \<open>
  The same form filled in with values that every rule accepts when the password field
  holds the password that was confirmed.
\<close>

definition filledDocument :: "jsstring \<Rightarrow> document" where
  "filledDocument password =
     formControls
       [(js ''fullName'', control (js ''Juan Perez'')), (js ''email'', control (js ''juan@ejemplo.ec'')),
        (js ''phone'', control (js ''0991234567'')),
        (js ''birthDate'', control (js ''1990-05-17'')),
        (js ''cedula'', control (js ''1710034065'')),
        (js ''password'', control password),
        (js ''confirmPassword'', control (js ''Abcdef1!'')),
        (js ''website'', control []), (js ''salary'', control (js ''50000'')),
        (js ''country'', control (js ''EC'')),
        (js ''cv'', (control (js ''cv.pdf''))
           \<lparr>elFiles := Some [\<lparr>fileType = js ''application/pdf'', fileSize = 120000\<rparr>]\<rparr>),
        (js ''comments'', control []),
        (js ''terms'', (control (js ''on''))\<lparr>elChecked := True\<rparr>)]
       [(js ''gender'', [control (js ''M''), (control (js ''F''))\<lparr>elChecked := True\<rparr>]),
        (js ''interests'',
           [(control (js ''a''))\<lparr>elChecked := True\<rparr>, control (js ''b''),
            (control (js ''c''))\<lparr>elChecked := True\<rparr>])]"

definition pageHost :: "jsstring \<Rightarrow> host" where
  "pageHost password = quitoEvening\<lparr>dom := filledDocument password\<rparr>"

definition filledHost :: host where
  "filledHost = pageHost (js ''Abcdef1!'')"

text \<open>The same page after the user has typed another password.\<close>

definition retypedHost :: host where
  "retypedHost = pageHost (js ''Zyxwvu9?'')"

text \<open>
  The browser in Quito at another instant, and a page whose birth-date field holds
  4 November 2008.
\<close>

definition quitoAt :: "int \<Rightarrow> host" where
  "quitoAt now = quitoEvening\<lparr>nowToday := now, nowMin := now, nowMax := now\<rparr>"

definition birthdayPage :: "int \<Rightarrow> host" where
  "birthdayPage now =
     (quitoAt now)\<lparr>dom := formControls [(js ''birthDate'', control (js ''2008-11-04''))] []\<rparr>"

section \<open>Facts about strings\<close>

lemma js_simps: "js [] = []" "js (c # cs) = of_nat (of_char c) # js cs"
  by (simp_all add: js_def)

lemma length_trim_le: "length (trim s) \<le> length s"
proof -
  have "length (trim s) \<le> length (dropWhile isWhiteSpace s)"
    unfolding trim_def using length_dropWhile_le [of isWhiteSpace "rev (dropWhile isWhiteSpace s)"]
    by simp
  also have "\<dots> \<le> length s" by (rule length_dropWhile_le)
  finally show ?thesis .
qed

lemma dropWhile_same_length:
  assumes "length (dropWhile P xs) = length xs"
  shows "dropWhile P xs = xs"
proof -
  have "length (takeWhile P xs) + length (dropWhile P xs) = length xs"
    by (metis length_append takeWhile_dropWhile_id)
  with assms have "takeWhile P xs = []" by simp
  then show ?thesis by (metis append_Nil takeWhile_dropWhile_id)
qed

lemma trim_same_length:
  assumes "length (trim s) = length s"
  shows "trim s = s"
proof -
  let ?d = "dropWhile isWhiteSpace s"
  have a: "length (trim s) \<le> length ?d"
    unfolding trim_def using length_dropWhile_le [of isWhiteSpace "rev ?d"] by simp
  have b: "length ?d \<le> length s" by (rule length_dropWhile_le)
  from assms a b have "length ?d = length s" by simp
  then have d: "?d = s" by (rule dropWhile_same_length)
  from assms have "length (dropWhile isWhiteSpace (rev s)) = length (rev s)"
    by (simp add: trim_def d)
  then have "dropWhile isWhiteSpace (rev s) = rev s" by (rule dropWhile_same_length)
  then show ?thesis by (simp add: trim_def d)
qed

lemma digit_not_space: "isDigit c \<Longrightarrow> \<not> isWhiteSpace c"
  by (auto simp: isDigit_def isWhiteSpace_def word_le_nat_alt)

lemma trim_no_space:
  assumes "\<forall>c \<in> set s. \<not> isWhiteSpace c"
  shows "trim s = s"
proof -
  have "dropWhile isWhiteSpace s = s"
    using assms by (cases s) auto
  moreover have "dropWhile isWhiteSpace (rev s) = rev s"
    using assms by (cases "rev s") (auto simp: in_set_conv_decomp dest: arg_cong [where f = set])
  ultimately show ?thesis by (simp add: trim_def)
qed

section \<open>The national-ID validator\<close>

lemma upt9: "[0..<9] = [0, 1, 2, 3, 4, 5, 6, 7, 8]"
  by (simp add: upt_rec)

lemma take9_nth:
  assumes "9 \<le> length ds"
  shows "take 9 ds = map ((!) ds) [0..<9]"
  using assms by (auto simp: list_eq_iff_nth_eq)

lemma checksumLoop_sum_list:
  assumes "length ds = 10"
  shows "checksumLoop ds =
     sum_list (map (\<lambda>(d, k). if d * k > 9 then d * k - 9 else d * k)
                (zip (take 9 ds) [2, 1, 2, 1, 2, 1, 2, 1, 2]))"
  using assms
  by (simp add: take9_nth)
     (simp add: checksumLoop_def upt9 checksumStep_def coefficients_def Let_def)

lemma take2_nth:
  assumes "2 \<le> length s"
  shows "take 2 s = [s ! 0, s ! 1]"
proof -
  from assms obtain a b r where "s = a # b # r"
    by (cases s; cases "tl s") auto
  then show ?thesis by simp
qed

lemma validateCedula_not_digits:
  assumes len: "length v = 10" and nd: "\<not> list_all isDigit v"
  shows "validateCedula v \<noteq> None"
proof -
  have "\<not> tenDigits (trim v)"
  proof
    assume t: "tenDigits (trim v)"
    then have "length (trim v) = length v" using len by (simp add: tenDigits_def)
    then have "trim v = v" by (rule trim_same_length)
    with t nd show False by (simp add: tenDigits_def)
  qed
  then show ?thesis by (simp add: validateCedula_def Let_def)
qed

lemma validateCedula_digits:
  assumes len: "length v = 10" and d: "list_all isDigit v"
  shows "validateCedula v =
     (let province = 10 * digitOf (v ! 0) + digitOf (v ! 1) in
      if province < 1 \<or> province > 24 then Some msgCedulaProvince
      else if specVerifier (map digitOf v) \<noteq> digitOf (v ! 9) then Some msgCedulaInvalid
      else None)"
proof -
  have tr: "trim v = v"
    using d by (intro trim_no_space) (auto simp: list_all_iff digit_not_space)
  have ne: "v \<noteq> []" using len by auto
  have ten: "tenDigits v" using len d by (simp add: tenDigits_def)
  have prov: "parseIntDigits (take 2 v) = 10 * digitOf (v ! 0) + digitOf (v ! 1)"
    using len by (simp add: take2_nth parseIntDigits_def digitsValue_def)
  have loop: "(if checksumLoop (map digitOf v) mod 10 = 0 then 0
               else 10 - checksumLoop (map digitOf v) mod 10) = specVerifier (map digitOf v)"
    using len by (simp add: checksumLoop_sum_list specVerifier_def Let_def)
  have n9: "map digitOf v ! 9 = digitOf (v ! 9)" using len by simp
  show ?thesis
    unfolding validateCedula_def tr Let_def prov loop n9 using ne ten by simp
qed

text \<open>
  Claim C1. A string of ten code units is accepted by \<^verbatim>\<open>validateCedula\<close> exactly when it
  is ten decimal digits, its first two digits are a province code from 1 to 24, and the
  verifier computed from its first nine digits (coefficients 2,1,2,1,2,1,2,1,2, minus 9
  above 9, sum, 0 or 10 minus the sum modulo 10) is its tenth digit. In particular a
  string that starts with 00 or 25 is rejected whatever its other digits are.
\<close>

theorem validateCedula_iff_spec:
  assumes len: "length v = 10"
  shows "(validateCedula v = None \<longleftrightarrow> specCedulaAccepted v)
       \<and> (take 2 v = js ''00'' \<or> take 2 v = js ''25'' \<longrightarrow> validateCedula v \<noteq> None)"
proof (cases "list_all isDigit v")
  case False
  then show ?thesis
    using validateCedula_not_digits [OF len False] by (simp add: specCedulaAccepted_def)
next
  case True
  have two: "take 2 v = [v ! 0, v ! 1]" using len by (simp add: take2_nth)
  have a: "validateCedula v = None \<longleftrightarrow> specCedulaAccepted v"
    using len True by (auto simp: validateCedula_digits specCedulaAccepted_def Let_def)
  have b: "take 2 v = js ''00'' \<or> take 2 v = js ''25'' \<longrightarrow> validateCedula v \<noteq> None"
    using len True by (auto simp: validateCedula_digits two js_simps digitOf_def Let_def)
  from a b show ?thesis by simp
qed

theorem validateCedula_iff_spec_witness:
  "length (js ''1710034065'') = 10
   \<and> validateCedula (js ''1710034065'') = None \<and> specCedulaAccepted (js ''1710034065'')
   \<and> length (js ''0010034065'') = 10 \<and> take 2 (js ''0010034065'') = js ''00''
   \<and> validateCedula (js ''0010034065'') \<noteq> None"
proof -
  have l1: "length (js ''1710034065'') = 10" by (simp add: js_def)
  have l2: "length (js ''0010034065'') = 10" by (simp add: js_def)
  have v: "validateCedula (js ''1710034065'') = None" by code_simp
  have t: "take 2 (js ''0010034065'') = js ''00''" by (simp add: js_simps)
  show ?thesis
    using validateCedula_iff_spec [OF l1] validateCedula_iff_spec [OF l2] l1 l2 v t by blast
qed

section \<open>The full-name validator\<close>

lemma split_not_Nil: "split sep s \<noteq> []"
  by (induction s) (auto split: list.splits)

lemma length_split: "length (split sep s) = Suc (length (filter (\<lambda>c. c = sep) s))"
proof (induction s)
  case Nil
  then show ?case by simp
next
  case (Cons c cs)
  then show ?case
    using split_not_Nil [of sep cs] by (auto split: list.splits)
qed

lemma split_lt2_iff: "length (split sep s) < 2 \<longleftrightarrow> sep \<notin> set s"
proof -
  have "length (filter (\<lambda>c. c = sep) s) = 0 \<longleftrightarrow> sep \<notin> set s"
    by (auto simp: filter_empty_conv)
  then show ?thesis by (simp add: length_split)
qed














section \<open>The salary and birth-date validators\<close>

lemma js_not_Nil: "js (c # cs) \<noteq> []"
  by (simp add: js_def)

lemma bitlen_numeral:
  "bitlen (numeral (Num.Bit0 n)) = bitlen (numeral n) + 1"
  "bitlen (numeral (Num.Bit1 n)) = bitlen (numeral n) + 1"
  "bitlen 1 = 1"
  by (subst compute_bitlen; simp)+

lemmas toNumber_eval =
  toNumber_def floorLog2_def pow2_def roundHalfEven_def Let_def bitlen_numeral

lemmas parseFloat_eval =
  parseFloat_def js_simps isWhiteSpace_def stripPrefix_def unsignedLiteral_def isDigit_def
  Let_def digitsValue_def digitOf_def exponentPart_def pow10_def

lemma toNumber_examples:
  "toNumber 50000 = Finite 50000"
  "toNumber 1000001 = Finite 1000001"
  "toNumber (- 1) = Finite (- 1)"
  by (simp_all add: toNumber_eval)

lemma parseFloat_examples:
  "parseFloat (js ''-1'') = Finite (- 1)"
  "parseFloat (js ''abc'') = NaN"
  "parseFloat (js ''1000001'') = Finite 1000001"
  "parseFloat (js ''50000'') = Finite 50000"
  by (simp_all add: parseFloat_eval toNumber_examples)

lemma salary_examples:
  "validateSalary (js ''-1'') = Some msgSalaryNegative"
  "validateSalary (js ''abc'') = Some msgSalaryNotNumeric"
  "validateSalary (js ''1000001'') = Some msgSalaryTooHigh"
  "validateSalary (js ''50000'') = None"
  by (simp_all add: validateSalary_def parseFloat_examples isNaN_def js_not_Nil)




lemma dot_not_digit: "\<not> isDigit 0x2E"
  by (simp add: isDigit_def)













text \<open>A string that does not parse as a date passes the three comparisons.\<close>

lemma validateBirthDate_unparseable:
  assumes "v \<noteq> []" and "newDate H v = None"
  shows "validateBirthDate H v = None"
  using assms
  by (simp add: validateBirthDate_def Let_def dateGreater_def dateLess_def split: option.split)

text \<open>
  Claim C4 says that a string that is not empty and does not parse as a date gets an
  error message. \<^verbatim>\<open>validateBirthDate\<close> accepts it: the three comparisons with an invalid
  date are false. \<^verbatim>\<open>validateSalary\<close> has the test for \<^verbatim>\<open>NaN\<close> that \<^verbatim>\<open>validateBirthDate\<close>
  lacks.
\<close>

theorem validateBirthDate_accepts_unparseable:
  "js ''abc'' \<noteq> [] \<and> newDate quitoEvening (js ''abc'') = None
   \<and> validateBirthDate quitoEvening (js ''abc'') = None
   \<and> validateSalary (js ''abc'') = Some msgSalaryNotNumeric"
proof -
  have ne: "js ''abc'' \<noteq> []" by (rule js_not_Nil)
  have "parseDateOnly (js ''abc'') = None" by code_simp
  then have nd: "newDate quitoEvening (js ''abc'') = None"
    by (simp add: newDate_def quitoEvening_def)
  have "validateBirthDate quitoEvening (js ''abc'') = None"
    using ne nd by (rule validateBirthDate_unparseable)
  with ne nd show ?thesis by (simp add: salary_examples)
qed

text \<open>
  Claim C5 says that a birth date one day after the day 18 years before today is
  rejected. In Quito at 20:00 on 3 November 2026, \<^verbatim>\<open>validateBirthDate\<close> accepts
  4 November 2008: the date string is read as midnight UTC, which is 19:00 of the day
  before in Quito, and is compared with 20:00 local time of 3 November 2008.
\<close>

theorem validateBirthDate_boundary_quito:
  "getFullYear quitoEvening (nowToday quitoEvening) = 2026
   \<and> MonthFromTime (localTime quitoEvening (nowToday quitoEvening)) = 10
   \<and> DateFromTime (localTime quitoEvening (nowToday quitoEvening)) = 3
   \<and> newDate quitoEvening (js ''2008-11-04'') = Some 1225756800000
   \<and> setFullYear quitoEvening (nowMax quitoEvening) 2008 = Some 1225760400000
   \<and> validateBirthDate quitoEvening (js ''2008-11-03'') = None
   \<and> validateBirthDate quitoEvening (js ''2008-11-04'') = None
   \<and> validateBirthDate quitoEvening (js ''2008-11-05'') = Some msgBirthAdult"
proof -
  have today: "getFullYear quitoEvening (nowToday quitoEvening) = 2026
      \<and> MonthFromTime (localTime quitoEvening (nowToday quitoEvening)) = 10
      \<and> DateFromTime (localTime quitoEvening (nowToday quitoEvening)) = 3"
    by code_simp
  have birth: "newDate quitoEvening (js ''2008-11-04'') = Some 1225756800000"
    by code_simp
  have maxDate: "setFullYear quitoEvening (nowMax quitoEvening) 2008 = Some 1225760400000"
    by code_simp
  have same: "validateBirthDate quitoEvening (js ''2008-11-03'') = None" by code_simp
  have next_day: "validateBirthDate quitoEvening (js ''2008-11-04'') = None" by code_simp
  have after: "validateBirthDate quitoEvening (js ''2008-11-05'') = Some msgBirthAdult"
    by code_simp
  from today birth maxDate same next_day after show ?thesis by (intro conjI) simp_all
qed

text \<open>
  The other way round, in Tokyo at 08:00 on 3 November 2026 a person born on
  3 November 2008 is rejected as under 18.
\<close>

lemma validateBirthDate_boundary_tokyo:
  "getFullYear tokyoMorning (nowToday tokyoMorning) = 2026
   \<and> MonthFromTime (localTime tokyoMorning (nowToday tokyoMorning)) = 10
   \<and> DateFromTime (localTime tokyoMorning (nowToday tokyoMorning)) = 3
   \<and> validateBirthDate tokyoMorning (js ''2008-11-03'') = Some msgBirthAdult"
  by code_simp

section \<open>validateField\<close>

text \<open>What the validator of a field answers; it does not depend on the errors stored.\<close>

lemma validateField_cases:
  obtains
    (unregistered) "map_of (validators s) f = None" "validateField H f s = (Inr True, s)"
  | (throws) e where "validateField H f s = (Inl e, s)"
  | (invalid) m where "validateField H f s = (Inr False, showError f m s)"
  | (valid) "validateField H f s = (Inr True, clearError f s)"
proof (cases "map_of (validators s) f")
  case None
  then show ?thesis using unregistered by (simp add: validateField_def)
next
  case (Some d)
  show ?thesis
  proof (cases "case validate d of None \<Rightarrow> Inr None
                | Some g \<Rightarrow> g H (fieldValue (dom H) f)")
    case (Inl e)
    then show ?thesis using Some throws by (simp add: validateField_def)
  next
    case (Inr err)
    then show ?thesis using Some invalid [of "the err"] valid
      by (cases "truthy err") (simp_all add: validateField_def)
  qed
qed

lemma validateField_validators [simp]:
  "validators (snd (validateField H f s)) = validators s"
  by (cases rule: validateField_cases [of s f H]) (simp_all add: showError_def clearError_def)

lemma validateField_isSubmitting [simp]:
  "isSubmitting (snd (validateField H f s)) = isSubmitting s"
  by (cases rule: validateField_cases [of s f H]) (simp_all add: showError_def clearError_def)

lemma validateField_other:
  assumes "g \<noteq> f"
  shows "map_of (errors (snd (validateField H f s))) g = map_of (errors s) g"
  using assms
  by (cases rule: validateField_cases [of s f H])
     (simp_all add: showError_def clearError_def update_conv' delete_conv')

lemma validateField_fst_cong:
  assumes "validators s = validators t"
  shows "fst (validateField H f s) = fst (validateField H f t)"
  using assms by (simp add: validateField_def split: option.splits sum.splits)

lemma validateField_entry_cong:
  assumes "validators s = validators t" and "fst (validateField H f s) = Inr ok"
    and "map_of (validators s) f \<noteq> None"
  shows "map_of (errors (snd (validateField H f s))) f
       = map_of (errors (snd (validateField H f t))) f"
  using assms
  by (auto simp: validateField_def showError_def clearError_def update_conv' delete_conv'
      split: option.splits sum.splits if_splits)

lemma validateField_errors_keys:
  "fst ` set (errors (snd (validateField H f s)))
     \<subseteq> fst ` set (errors s) \<union> ({f} \<inter> fst ` set (validators s))"
proof (cases rule: validateField_cases [of s f H])
  case unregistered
  then show ?thesis by simp
next
  case (throws e)
  then show ?thesis by simp
next
  case (invalid m)
  have "map_of (validators s) f \<noteq> None"
  proof
    assume "map_of (validators s) f = None"
    then have "validateField H f s = (Inr True, s)" by (simp add: validateField_def)
    with invalid show False by simp
  qed
  then have "f \<in> fst ` set (validators s)" by (simp add: map_of_eq_None_iff)
  then show ?thesis using invalid by (auto simp: showError_def dom_update)
next
  case valid
  then show ?thesis using dom_delete_subset [of f "errors s"] by (auto simp: clearError_def)
qed

section \<open>validateForm\<close>

lemma validateFormLoop_visitAll:
  assumes "\<forall>f \<in> set fs. \<exists>ok. fst (validateField H f s) = Inr ok"
  shows "validateFormLoop H fs b s =
           (Inr (b \<and> list_all (\<lambda>r. r = Inr True) (fst (visitAll H fs s))),
            snd (visitAll H fs s))
       \<and> fst (visitAll H fs s) = map (\<lambda>f. fst (validateField H f s)) fs
       \<and> validators (snd (visitAll H fs s)) = validators s
       \<and> isSubmitting (snd (visitAll H fs s)) = isSubmitting s"
  using assms
proof (induction fs arbitrary: b s)
  case Nil
  then show ?case by simp
next
  case (Cons f fs)
  obtain r s1 where vf: "validateField H f s = (r, s1)" by (cases "validateField H f s")
  from Cons.prems obtain ok where ok: "r = Inr ok" using vf by auto
  have v1: "validators s1 = validators s" using validateField_validators [of H f s] vf by simp
  have i1: "isSubmitting s1 = isSubmitting s" using validateField_isSubmitting [of H f s] vf by simp
  have same: "fst (validateField H g s1) = fst (validateField H g s)" for g
    using v1 by (rule validateField_fst_cong)
  have "\<forall>g \<in> set fs. \<exists>ok. fst (validateField H g s1) = Inr ok"
    using Cons.prems by (simp add: same)
  note IH = Cons.IH [OF this]
  obtain rs s2 where va: "visitAll H fs s1 = (rs, s2)" by (cases "visitAll H fs s1")
  show ?case
    using IH [of "if \<not> ok then False else b"] vf ok va v1 i1
    by (cases ok) (simp_all add: same)
qed

lemma validateFormLoop_throws:
  assumes "\<exists>f \<in> set fs. \<exists>e. fst (validateField H f s) = Inl e"
  shows "\<exists>e s'. validateFormLoop H fs b s = (Inl e, s')"
  using assms
proof (induction fs arbitrary: b s)
  case Nil
  then show ?case by simp
next
  case (Cons f fs)
  obtain r s1 where vf: "validateField H f s = (r, s1)" by (cases "validateField H f s")
  show ?case
  proof (cases r)
    case (Inl e)
    then show ?thesis using vf by simp
  next
    case (Inr ok)
    have v1: "validators s1 = validators s" using validateField_validators [of H f s] vf by simp
    have same: "fst (validateField H g s1) = fst (validateField H g s)" for g
      using v1 by (rule validateField_fst_cong)
    from Cons.prems obtain g e where g: "g \<in> set (f # fs)" "fst (validateField H g s) = Inl e"
      by blast
    have "g \<noteq> f" using g(2) vf Inr by auto
    then have "\<exists>g \<in> set fs. \<exists>e. fst (validateField H g s1) = Inl e"
      using g by (auto simp: same)
    from Cons.IH [OF this, of "if \<not> ok then False else b"] show ?thesis
      using vf Inr by simp
  qed
qed

lemma visitAll_entries:
  assumes "\<forall>f \<in> set fs. \<exists>ok. fst (validateField H f s) = Inr ok"
    and "set fs \<subseteq> fst ` set (validators s)"
  shows "(\<forall>f \<in> set fs. map_of (errors (snd (visitAll H fs s))) f
                          = map_of (errors (snd (validateField H f s))) f)
       \<and> (\<forall>g. g \<notin> set fs \<longrightarrow> map_of (errors (snd (visitAll H fs s))) g = map_of (errors s) g)"
  using assms
proof (induction fs arbitrary: s)
  case Nil
  then show ?case by simp
next
  case (Cons f fs)
  obtain r s1 where vf: "validateField H f s = (r, s1)" by (cases "validateField H f s")
  have s1: "s1 = snd (validateField H f s)" using vf by simp
  have v1: "validators s1 = validators s" using validateField_validators [of H f s] vf by simp
  have same: "fst (validateField H g s1) = fst (validateField H g s)" for g
    using v1 by (rule validateField_fst_cong)
  have p1: "\<forall>g \<in> set fs. \<exists>ok. fst (validateField H g s1) = Inr ok"
    using Cons.prems(1) by (simp add: same)
  have p2: "set fs \<subseteq> fst ` set (validators s1)" using Cons.prems(2) v1 by simp
  note IH = Cons.IH [OF p1 p2]
  obtain rs s2 where va: "visitAll H fs s1 = (rs, s2)" by (cases "visitAll H fs s1")
  have fin: "snd (visitAll H (f # fs) s) = s2" using vf va by simp
  have inside: "map_of (errors s2) g = map_of (errors (snd (validateField H g s))) g"
    if g: "g \<in> set fs" for g
  proof -
    from Cons.prems(1) g obtain ok where ok: "fst (validateField H g s) = Inr ok" by auto
    have reg: "map_of (validators s1) g \<noteq> None"
      using p2 g by (auto simp: map_of_eq_None_iff)
    have "map_of (errors s2) g = map_of (errors (snd (validateField H g s1))) g"
      using IH g va by simp
    also have "\<dots> = map_of (errors (snd (validateField H g s))) g"
      using v1 ok reg by (intro validateField_entry_cong) (simp_all add: same)
    finally show ?thesis .
  qed
  have outside: "map_of (errors s2) g = map_of (errors s1) g" if "g \<notin> set fs" for g
    using IH that va by simp
  have a: "\<forall>g \<in> set (f # fs). map_of (errors s2) g
             = map_of (errors (snd (validateField H g s))) g"
  proof
    fix g assume "g \<in> set (f # fs)"
    then show "map_of (errors s2) g = map_of (errors (snd (validateField H g s))) g"
      using inside [of g] outside [of g] s1 by (cases "g \<in> set fs") auto
  qed
  have b: "\<forall>g. g \<notin> set (f # fs) \<longrightarrow> map_of (errors s2) g = map_of (errors s) g"
    using outside validateField_other [of _ f H s] s1 by auto
  from a b show ?case unfolding fin by simp
qed

section \<open>What every run of the form validation keeps\<close>

lemma validateFormLoop_frame:
  "validators (snd (validateFormLoop H fs b s)) = validators s
   \<and> isSubmitting (snd (validateFormLoop H fs b s)) = isSubmitting s
   \<and> fst ` set (errors (snd (validateFormLoop H fs b s)))
        \<subseteq> fst ` set (errors s) \<union> fst ` set (validators s)"
proof (induction fs arbitrary: b s)
  case Nil
  then show ?case by simp
next
  case (Cons f fs)
  obtain r s1 where vf: "validateField H f s = (r, s1)" by (cases "validateField H f s")
  have v1: "validators s1 = validators s" using validateField_validators [of H f s] vf by simp
  have i1: "isSubmitting s1 = isSubmitting s" using validateField_isSubmitting [of H f s] vf by simp
  have k1: "fst ` set (errors s1) \<subseteq> fst ` set (errors s) \<union> fst ` set (validators s)"
    using validateField_errors_keys [of H f s] unfolding vf snd_conv by blast
  show ?case
  proof (cases r)
    case (Inl e)
    then have "snd (validateFormLoop H (f # fs) b s) = s1" using vf by simp
    then show ?thesis using v1 i1 k1 by simp
  next
    case (Inr ok)
    let ?t = "snd (validateFormLoop H fs (if \<not> ok then False else b) s1)"
    have eq: "snd (validateFormLoop H (f # fs) b s) = ?t"
      using vf Inr by simp
    have A: "validators ?t = validators s1" and B: "isSubmitting ?t = isSubmitting s1"
      and C: "fst ` set (errors ?t) \<subseteq> fst ` set (errors s1) \<union> fst ` set (validators s1)"
      using Cons.IH [of "if \<not> ok then False else b" s1] by blast+
    have C': "fst ` set (errors ?t) \<subseteq> fst ` set (errors s) \<union> fst ` set (validators s)"
      using C k1 unfolding v1 by blast
    show ?thesis unfolding eq using A B C' v1 i1 by simp
  qed
qed

lemma validateForm_frame:
  "validators (snd (validateForm H s)) = validators s"
  "isSubmitting (snd (validateForm H s)) = isSubmitting s"
  "fst ` set (errors (snd (validateForm H s))) \<subseteq> fst ` set (errors s) \<union> fst ` set (validators s)"
  using validateFormLoop_frame [of H "map fst (validators s)" True s]
  by (simp_all add: validateForm_def)

lemma handleSubmit_cases:
  obtains
    (ignored) "isSubmitting (fv sys)" "handleSubmit H sys = sys"
  | (stopped) s' where "\<not> isSubmitting (fv sys)"
      "handleSubmit H sys = sys\<lparr>fv := s'\<lparr>isSubmitting := False\<rparr>\<rparr>
       \<or> handleSubmit H sys = sys\<lparr>fv := s'\<lparr>isSubmitting := False\<rparr>, formRuns := formRuns sys + 1\<rparr>"
      "validators s' = validators (fv sys)"
      "fst ` set (errors s') \<subseteq> fst ` set (errors (fv sys)) \<union> fst ` set (validators (fv sys))"
  | (sent) s' where "\<not> isSubmitting (fv sys)"
      "handleSubmit H sys =
         sys\<lparr>fv := s', pending := pending sys + 1,
             transportCalls := transportCalls sys + 1, formRuns := formRuns sys + 1\<rparr>"
      "validators s' = validators (fv sys)" "isSubmitting s'"
      "fst ` set (errors s') \<subseteq> fst ` set (errors (fv sys)) \<union> fst ` set (validators (fv sys))"
proof (cases "isSubmitting (fv sys)")
  case True
  then show ?thesis using ignored by (simp add: handleSubmit_def)
next
  case False
  show ?thesis
  proof (cases "hasSubmitButton (dom H)")
    case nb: False
    have "handleSubmit H sys = sys\<lparr>fv := (fv sys)\<lparr>isSubmitting := False\<rparr>\<rparr>"
      using False nb by (simp add: handleSubmit_def)
    then show ?thesis using False stopped [of "fv sys"] by simp
  next
    case True
    let ?s0 = "(fv sys)\<lparr>isSubmitting := True\<rparr>"
    obtain r s' where vf: "validateForm H ?s0 = (r, s')" by (cases "validateForm H ?s0")
    have fr: "validators s' = validators (fv sys)" "isSubmitting s'"
      "fst ` set (errors s') \<subseteq> fst ` set (errors (fv sys)) \<union> fst ` set (validators (fv sys))"
      using validateForm_frame [of H ?s0] vf by simp_all
    show ?thesis
    proof (cases "r = Inr True")
      case t: True
      have "handleSubmit H sys =
         sys\<lparr>fv := s', pending := pending sys + 1,
             transportCalls := transportCalls sys + 1, formRuns := formRuns sys + 1\<rparr>"
        using False True vf t by (simp add: handleSubmit_def)
      then show ?thesis using False fr sent by simp
    next
      case f: False
      have "handleSubmit H sys =
         sys\<lparr>fv := s'\<lparr>isSubmitting := False\<rparr>, formRuns := formRuns sys + 1\<rparr>"
        using False True vf f by (cases r; cases "projr r") (simp_all add: handleSubmit_def)
      then show ?thesis using False fr stopped [of s'] by simp
    qed
  qed
qed

lemma onField_registered:
  assumes "registered sys"
  shows "registered (onField H name sys)"
proof -
  have v: "validators (fv sys) = setupValidators"
    and k: "fst ` set (errors (fv sys)) \<subseteq> fst ` set setupValidators"
    using assms by (simp_all add: registered_def)
  have "fst ` set (errors (snd (validateField H name (fv sys)))) \<subseteq> fst ` set setupValidators"
    using validateField_errors_keys [of H name "fv sys"] k unfolding v by blast
  then show ?thesis using v by (simp add: registered_def onField_def)
qed

lemma step_registered:
  assumes "registered sys"
  shows "registered (step H e sys)"
proof (cases e)
  case (InputEvent name)
  then show ?thesis using onField_registered [OF assms, of H name] assms by simp
next
  case (ChangeEvent name b)
  then show ?thesis using onField_registered [OF assms, of H name] assms by simp
next
  case SubmitEvent
  have v: "validators (fv sys) = setupValidators"
    and k: "fst ` set (errors (fv sys)) \<subseteq> fst ` set setupValidators"
    using assms by (simp_all add: registered_def)
  have "validators (fv (handleSubmit H sys)) = setupValidators
        \<and> fst ` set (errors (fv (handleSubmit H sys))) \<subseteq> fst ` set setupValidators"
  proof (cases rule: handleSubmit_cases [of sys H])
    case ignored
    then show ?thesis using v k by simp
  next
    case (stopped s')
    have "fst ` set (errors s') \<subseteq> fst ` set setupValidators"
      using stopped(4) k unfolding v by blast
    moreover have "errors (fv (handleSubmit H sys)) = errors s'"
      "validators (fv (handleSubmit H sys)) = validators s'"
      using stopped(2) by auto
    ultimately show ?thesis using stopped(3) v by simp
  next
    case (sent s')
    have "fst ` set (errors s') \<subseteq> fst ` set setupValidators"
      using sent(5) k unfolding v by blast
    then show ?thesis using sent(2,3) v by simp
  qed
  then show ?thesis unfolding SubmitEvent step.simps registered_def .
next
  case ResetEvent
  then show ?thesis using assms by (simp add: registered_def clearAllErrors_def)
next
  case TransportSettled
  then show ?thesis using assms by (simp add: registered_def resumeSubmit_def)
next
  case (CallValidateField name)
  then show ?thesis using onField_registered [OF assms, of H name] by simp
next
  case CallValidateForm
  have v: "validators (fv sys) = setupValidators"
    and k: "fst ` set (errors (fv sys)) \<subseteq> fst ` set setupValidators"
    using assms by (simp_all add: registered_def)
  have "fst ` set (errors (snd (validateForm H (fv sys)))) \<subseteq> fst ` set setupValidators"
    using validateForm_frame(3) [of H "fv sys"] k unfolding v by blast
  then show ?thesis using CallValidateForm v by (simp add: registered_def validateForm_frame)
next
  case CallReset
  then show ?thesis using assms by (simp add: registered_def clearAllErrors_def)
qed

lemma reachable_registered: "reachable sys \<Longrightarrow> registered sys"
proof (induction rule: reachable.induct)
  case start
  show ?case by (simp add: registered_def initial_def newFormValidator_def)
next
  case (settle sys H)
  then show ?case by (intro step_registered)
next
  case (event sys e H)
  then show ?case by (intro step_registered)
qed

lemma step_singleFlight:
  assumes "singleFlight sys" and "e = TransportSettled \<longrightarrow> 0 < pending sys"
  shows "singleFlight (step H e sys)"
proof (cases e)
  case (InputEvent name)
  then show ?thesis using assms by (simp add: singleFlight_def onField_def)
next
  case (ChangeEvent name b)
  then show ?thesis using assms by (simp add: singleFlight_def onField_def)
next
  case SubmitEvent
  show ?thesis
    using assms unfolding SubmitEvent step.simps
    by (cases rule: handleSubmit_cases [of sys H]) (auto simp: singleFlight_def)
next
  case ResetEvent
  then show ?thesis using assms by (simp add: singleFlight_def clearAllErrors_def)
next
  case TransportSettled
  then show ?thesis using assms by (auto simp: singleFlight_def resumeSubmit_def)
next
  case (CallValidateField name)
  then show ?thesis using assms by (simp add: singleFlight_def onField_def)
next
  case CallValidateForm
  then show ?thesis using assms by (simp add: singleFlight_def validateForm_frame)
next
  case CallReset
  then show ?thesis using assms by (simp add: singleFlight_def clearAllErrors_def)
qed

lemma reachable_singleFlight: "reachable sys \<Longrightarrow> singleFlight sys"
proof (induction rule: reachable.induct)
  case start
  show ?case by (simp add: singleFlight_def initial_def newFormValidator_def)
next
  case (settle sys H)
  then show ?case by (intro step_singleFlight) simp_all
next
  case (event sys e H)
  then show ?case by (intro step_singleFlight) simp_all
qed

lemma step_transport:
  assumes "transportCalls (step H e sys) \<noteq> transportCalls sys"
  shows "e = SubmitEvent \<and> \<not> isSubmitting (fv sys)
       \<and> transportCalls (step H e sys) = transportCalls sys + 1
       \<and> pending (step H e sys) = pending sys + 1"
proof (cases e)
  case SubmitEvent
  show ?thesis
    using assms unfolding SubmitEvent step.simps
    by (cases rule: handleSubmit_cases [of sys H]) auto
qed (use assms in \<open>auto simp: onField_def resumeSubmit_def split: if_splits\<close>)

section \<open>Runs on the sample hosts\<close>

lemma js_inject: "js a = js b \<longleftrightarrow> a = b"
proof -
  have "inj (\<lambda>c::char. (of_nat (of_char c) :: codeunit))"
  proof (rule injI)
    fix x y :: char
    assume "(of_nat (of_char x) :: codeunit) = of_nat (of_char y)"
    then have "unat (of_nat (of_char x) :: codeunit) = unat (of_nat (of_char y) :: codeunit)"
      by simp
    moreover have "(of_char c :: nat) < 2 ^ LENGTH(16)" for c :: char
    proof -
      have "(of_char c :: nat) mod 256 < 256" by simp
      then have "(of_char c :: nat) < 256" by simp
      moreover have "(256 :: nat) \<le> 2 ^ LENGTH(16)" by simp
      ultimately show ?thesis by (rule less_le_trans)
    qed
    ultimately have "(of_char x :: nat) = of_char y"
      by (simp add: unat_of_nat take_bit_nat_eq_self)
    then show "x = y" by simp
  qed
  then show ?thesis unfolding js_def by (simp add: inj_map_eq_map)
qed

lemma js_Nil: "js a = [] \<longleftrightarrow> a = []" "[] = js a \<longleftrightarrow> a = []"
  by (auto simp: js_def)

lemma setup_keys:
  "map fst setupValidators =
     [js ''fullName'', js ''email'', js ''phone'', js ''birthDate'', js ''cedula'',
      js ''password'', js ''confirmPassword'', js ''website'', js ''salary'', js ''country'',
      js ''gender'', js ''interests'', js ''cv'', js ''comments'', js ''terms'']"
  by (simp add: setupValidators_def)

lemma setup_lookup:
  "map_of setupValidators (js ''fullName'') = Some (rule True (\<lambda>H v. Inr (validateFullName v)))"
  "map_of setupValidators (js ''email'') = Some (rule True (\<lambda>H v. Inr (validateEmail v)))"
  "map_of setupValidators (js ''phone'') = Some (rule True (\<lambda>H v. Inr (validatePhone v)))"
  "map_of setupValidators (js ''birthDate'') = Some (rule True (\<lambda>H v. Inr (validateBirthDate H v)))"
  "map_of setupValidators (js ''cedula'') = Some (rule True (\<lambda>H v. Inr (validateCedula v)))"
  "map_of setupValidators (js ''password'') = Some (rule True (\<lambda>H v. Inr (validatePassword v)))"
  "map_of setupValidators (js ''confirmPassword'') = Some (rule True (\<lambda>H v. validateConfirmPassword H v))"
  "map_of setupValidators (js ''website'') = Some (rule False (\<lambda>H v. Inr (validateWebsite v)))"
  "map_of setupValidators (js ''salary'') = Some (rule True (\<lambda>H v. Inr (validateSalary v)))"
  "map_of setupValidators (js ''country'') = Some (rule True (\<lambda>H v. Inr (validateSelect v)))"
  "map_of setupValidators (js ''gender'') = Some (rule True (\<lambda>H v. Inr (validateRadioGroup H (js ''gender''))))"
  "map_of setupValidators (js ''interests'') = Some (rule True (\<lambda>H v. Inr (validateCheckboxGroup H (js ''interests'') 2)))"
  "map_of setupValidators (js ''cv'') = Some (rule True (\<lambda>H v. validateFile H (js ''cv'')))"
  "map_of setupValidators (js ''comments'') = Some (rule False (\<lambda>H v. Inr (validateTextarea v)))"
  "map_of setupValidators (js ''terms'') = Some (rule True (\<lambda>H v. validateCheckbox H (js ''terms'')))"
  by (simp_all add: setupValidators_def js_inject)

lemma page_values:
  "fieldValue (dom (pageHost password)) (js ''fullName'') = js ''Juan Perez''"
  "fieldValue (dom (pageHost password)) (js ''email'') = js ''juan@ejemplo.ec''"
  "fieldValue (dom (pageHost password)) (js ''phone'') = js ''0991234567''"
  "fieldValue (dom (pageHost password)) (js ''birthDate'') = js ''1990-05-17''"
  "fieldValue (dom (pageHost password)) (js ''cedula'') = js ''1710034065''"
  "fieldValue (dom (pageHost password)) (js ''password'') = password"
  "fieldValue (dom (pageHost password)) (js ''confirmPassword'') = js ''Abcdef1!''"
  "fieldValue (dom (pageHost password)) (js ''website'') = []"
  "fieldValue (dom (pageHost password)) (js ''salary'') = js ''50000''"
  "fieldValue (dom (pageHost password)) (js ''country'') = js ''EC''"
  "fieldValue (dom (pageHost password)) (js ''gender'') = js ''M''"
  "fieldValue (dom (pageHost password)) (js ''interests'') = js ''a''"
  "fieldValue (dom (pageHost password)) (js ''cv'') = js ''cv.pdf''"
  "fieldValue (dom (pageHost password)) (js ''comments'') = []"
  "fieldValue (dom (pageHost password)) (js ''terms'') = js ''on''"
  by (simp_all add: fieldValue_def pageHost_def filledDocument_def formControls_def control_def
      js_inject)

lemma validateField_setup:
  assumes "validators s = setupValidators" and "map_of setupValidators f = Some (rule r g)"
    and "g H (fieldValue (dom H) f) = Inr err"
  shows "validateField H f s =
           (if truthy err then (Inr False, showError f (the err) s)
            else (Inr True, clearError f s))"
  using assms by (simp add: validateField_def rule_def)

lemma validateBirthDate_dom [simp]:
  "validateBirthDate (H\<lparr>dom := d\<rparr>) v = validateBirthDate H v"
  by (simp add: validateBirthDate_def newDate_def getFullYear_def setFullYear_def
      cong: option.case_cong)

lemmas string_eval =
  trim_def isWhiteSpace_def isLower_def isUpper_def isDigit_def js_simps

lemma valid_fullName: "validateFullName (js ''Juan Perez'') = None"
  by (simp add: validateFullName_def namePattern_def isNameChar_def split_lt2_iff string_eval)

lemma valid_email: "validateEmail (js ''juan@ejemplo.ec'') = None"
  by (simp add: validateEmail_def emailPattern_def isEmailChar_def string_eval upt_rec)

lemma valid_phone: "validatePhone (js ''0991234567'') = None"
  by (simp add: validatePhone_def ecuadorianPattern_def cleanPhone_def stripPrefix_def
      localNumber_def string_eval)

lemma valid_cedula: "validateCedula (js ''1710034065'') = None"
  by code_simp

lemma valid_password:
  "validatePassword (js ''Abcdef1!'') = None"
  "validatePassword (js ''Zyxwvu9?'') = None"
  by (simp_all add: validatePassword_def isSymbol_def string_eval)

lemma valid_blank:
  "validateWebsite [] = None" "validateSelect (js ''EC'') = None" "validateTextarea [] = None"
  by (simp_all add: validateWebsite_def validateSelect_def validateTextarea_def trim_def js_Nil)

lemmas page_valid_values =
  valid_fullName valid_email valid_phone valid_cedula valid_password valid_blank

lemma page_birthDate: "validateBirthDate (pageHost password) (js ''1990-05-17'') = None"
proof -
  have "validateBirthDate quitoEvening (js ''1990-05-17'') = None" by code_simp
  then show ?thesis by (simp add: pageHost_def)
qed

lemma page_controls:
  "validateConfirmPassword (pageHost password) v =
     Inr (if v = [] then Some msgConfirmRequired
          else if v \<noteq> password then Some msgConfirmMismatch else None)"
  "validateRadioGroup (pageHost password) (js ''gender'') = None"
  "validateCheckboxGroup (pageHost password) (js ''interests'') 2 = None"
  "validateFile (pageHost password) (js ''cv'') = Inr None"
  "validateCheckbox (pageHost password) (js ''terms'') = Inr None"
  by (simp_all add: validateConfirmPassword_def validateRadioGroup_def
      validateCheckboxGroup_def validateFile_def validateCheckbox_def
      pageHost_def filledDocument_def formControls_def control_def js_inject js_Nil)

lemma confirm_messages: "msgConfirmRequired \<noteq> []" "msgConfirmMismatch \<noteq> []"
  by (simp_all add: msgConfirmRequired_def msgConfirmMismatch_def js_Nil)

text \<open>
  On the filled page every field but the confirmation is valid, and the confirmation
  is valid exactly when the password field holds the confirmed password.
\<close>

lemma page_fields:
  assumes v: "validators s = setupValidators" and pw: "validatePassword password = None"
  shows "f \<in> set (map fst setupValidators) \<Longrightarrow> f \<noteq> js ''confirmPassword'' \<Longrightarrow>
           validateField (pageHost password) f s = (Inr True, clearError f s)"
    and "validateField (pageHost password) (js ''confirmPassword'') s =
           (if password = js ''Abcdef1!''
            then (Inr True, clearError (js ''confirmPassword'') s)
            else (Inr False, showError (js ''confirmPassword'') msgConfirmMismatch s))"
proof -
  note ev = validateField_setup [OF v] page_values page_valid_values page_birthDate
    page_controls salary_examples pw truthy_def
  show "validateField (pageHost password) (js ''confirmPassword'') s =
           (if password = js ''Abcdef1!''
            then (Inr True, clearError (js ''confirmPassword'') s)
            else (Inr False, showError (js ''confirmPassword'') msgConfirmMismatch s))"
    by (subst validateField_setup [OF v setup_lookup(7)])
       (auto simp: page_values page_controls truthy_def confirm_messages js_Nil
          split: if_splits)
  assume "f \<in> set (map fst setupValidators)" and "f \<noteq> js ''confirmPassword''"
  then consider "f = js ''fullName''" | "f = js ''email''" | "f = js ''phone''"
    | "f = js ''birthDate''" | "f = js ''cedula''" | "f = js ''password''"
    | "f = js ''website''" | "f = js ''salary''" | "f = js ''country''" | "f = js ''gender''"
    | "f = js ''interests''" | "f = js ''cv''" | "f = js ''comments''" | "f = js ''terms''"
    unfolding setup_keys by auto
  then show "validateField (pageHost password) f s = (Inr True, clearError f s)"
  proof cases
    case 1 then show ?thesis by (simp add: validateField_setup [OF v setup_lookup(1)] ev)
  next
    case 2 then show ?thesis by (simp add: validateField_setup [OF v setup_lookup(2)] ev)
  next
    case 3 then show ?thesis by (simp add: validateField_setup [OF v setup_lookup(3)] ev)
  next
    case 4 then show ?thesis by (simp add: validateField_setup [OF v setup_lookup(4)] ev)
  next
    case 5 then show ?thesis by (simp add: validateField_setup [OF v setup_lookup(5)] ev)
  next
    case 6 then show ?thesis by (simp add: validateField_setup [OF v setup_lookup(6)] ev)
  next
    case 7 then show ?thesis by (simp add: validateField_setup [OF v setup_lookup(8)] ev)
  next
    case 8 then show ?thesis by (simp add: validateField_setup [OF v setup_lookup(9)] ev)
  next
    case 9 then show ?thesis by (simp add: validateField_setup [OF v setup_lookup(10)] ev)
  next
    case 10 then show ?thesis by (simp add: validateField_setup [OF v setup_lookup(11)] ev)
  next
    case 11 then show ?thesis by (simp add: validateField_setup [OF v setup_lookup(12)] ev)
  next
    case 12 then show ?thesis by (simp add: validateField_setup [OF v setup_lookup(13)] ev)
  next
    case 13 then show ?thesis by (simp add: validateField_setup [OF v setup_lookup(14)] ev)
  next
    case 14 then show ?thesis by (simp add: validateField_setup [OF v setup_lookup(15)] ev)
  qed
qed

lemma page_results:
  assumes v: "validators s = setupValidators" and pw: "validatePassword password = None"
  shows "\<forall>f \<in> set (map fst (validators s)).
           fst (validateField (pageHost password) f s)
             = Inr (f = js ''confirmPassword'' \<longrightarrow> password = js ''Abcdef1!'')"
proof
  fix f assume "f \<in> set (map fst (validators s))"
  then have f: "f \<in> set (map fst setupValidators)" using v by simp
  show "fst (validateField (pageHost password) f s)
          = Inr (f = js ''confirmPassword'' \<longrightarrow> password = js ''Abcdef1!'')"
    using page_fields(1) [OF v pw f] page_fields(2) [OF v pw]
    by (cases "f = js ''confirmPassword''") simp_all
qed

lemma page_no_throw:
  assumes "validators s = setupValidators" and "validatePassword password = None"
  shows "\<forall>f \<in> set (map fst (validators s)). \<exists>ok. fst (validateField (pageHost password) f s) = Inr ok"
  using page_results [OF assms] by blast

lemma new_validators: "validators newFormValidator = setupValidators"
  "validators (newFormValidator\<lparr>isSubmitting := b\<rparr>) = setupValidators"
  by (simp_all add: newFormValidator_def)

lemma confirm_registered: "js ''confirmPassword'' \<in> set (map fst setupValidators)"
  "js ''terms'' \<in> set (map fst setupValidators)"
  "js ''terms'' \<noteq> js ''confirmPassword''"
  by (simp_all add: setup_keys js_inject)

section \<open>The claims about the state of the validator\<close>

text \<open>
  Claim C2. Whatever the registry and the values of the fields are, when no validator
  throws, \<^verbatim>\<open>validateForm()\<close> returns the conjunction of the results that
  \<^verbatim>\<open>validateField\<close> gives for the registered fields; it is the run that calls
  \<^verbatim>\<open>validateField\<close> on every registered field in registration order, with no field
  skipped; and in the state it leaves, the error of every registered field is the one a
  call of \<^verbatim>\<open>validateField\<close> on that field alone leaves, the errors of other keys,
  the registry and the flag being untouched. When the validator of some registered field
  throws, \<^verbatim>\<open>validateForm()\<close> throws as well and returns nothing.
\<close>

theorem validateForm_conjunction:
  "((\<forall>f \<in> set (map fst (validators s)). \<exists>ok. fst (validateField H f s) = Inr ok) \<longrightarrow>
     (\<exists>s'. validateForm H s =
            (Inr (\<forall>f \<in> set (map fst (validators s)). fst (validateField H f s) = Inr True), s')
        \<and> visitAll H (map fst (validators s)) s =
            (map (\<lambda>f. fst (validateField H f s)) (map fst (validators s)), s')
        \<and> (\<forall>f \<in> set (map fst (validators s)).
              map_of (errors s') f = map_of (errors (snd (validateField H f s))) f)
        \<and> (\<forall>g. g \<notin> set (map fst (validators s)) \<longrightarrow> map_of (errors s') g = map_of (errors s) g)
        \<and> validators s' = validators s \<and> isSubmitting s' = isSubmitting s))
   \<and> ((\<exists>f \<in> set (map fst (validators s)). \<exists>e. fst (validateField H f s) = Inl e) \<longrightarrow>
        (\<exists>e s'. validateForm H s = (Inl e, s')))"
proof (intro conjI impI)
  let ?keys = "map fst (validators s)"
  let ?s' = "snd (visitAll H ?keys s)"
  assume nt: "\<forall>f \<in> set ?keys. \<exists>ok. fst (validateField H f s) = Inr ok"
  note L = validateFormLoop_visitAll [OF nt, of True]
  have sub: "set ?keys \<subseteq> fst ` set (validators s)" by simp
  note E = visitAll_entries [OF nt sub]
  have res: "list_all (\<lambda>r. r = Inr True) (fst (visitAll H ?keys s))
             = (\<forall>f \<in> set ?keys. fst (validateField H f s) = Inr True)"
    using L by (simp add: list_all_iff)
  have 1: "validateForm H s =
            (Inr (\<forall>f \<in> set ?keys. fst (validateField H f s) = Inr True), ?s')"
    using L res by (simp add: validateForm_def)
  have 2: "visitAll H ?keys s = (map (\<lambda>f. fst (validateField H f s)) ?keys, ?s')"
    using L by (simp add: prod_eq_iff)
  from 1 2 E L show "\<exists>s'. validateForm H s =
            (Inr (\<forall>f \<in> set ?keys. fst (validateField H f s) = Inr True), s')
        \<and> visitAll H ?keys s = (map (\<lambda>f. fst (validateField H f s)) ?keys, s')
        \<and> (\<forall>f \<in> set ?keys.
              map_of (errors s') f = map_of (errors (snd (validateField H f s))) f)
        \<and> (\<forall>g. g \<notin> set ?keys \<longrightarrow> map_of (errors s') g = map_of (errors s) g)
        \<and> validators s' = validators s \<and> isSubmitting s' = isSubmitting s"
    by blast
next
  assume "\<exists>f \<in> set (map fst (validators s)). \<exists>e. fst (validateField H f s) = Inl e"
  then show "\<exists>e s'. validateForm H s = (Inl e, s')"
    unfolding validateForm_def by (rule validateFormLoop_throws)
qed

theorem validateForm_conjunction_witness:
  "fst (validateForm retypedHost newFormValidator) = Inr False
   \<and> fst (validateField retypedHost (js ''confirmPassword'') newFormValidator) = Inr False
   \<and> fst (validateField retypedHost (js ''terms'') newFormValidator) = Inr True
   \<and> map_of (errors (snd (validateForm retypedHost newFormValidator))) (js ''confirmPassword'')
       = Some msgConfirmMismatch
   \<and> map_of (errors (snd (validateForm retypedHost newFormValidator))) (js ''terms'') = None
   \<and> fst (validateField quitoEvening (js ''terms'') newFormValidator) = Inl TypeError
   \<and> fst (validateForm quitoEvening newFormValidator) = Inl TypeError"
proof -
  let ?s = newFormValidator
  note v = new_validators(1)
  have pw: "validatePassword (js ''Zyxwvu9?'') = None" by (rule valid_password)
  have nt: "\<forall>f \<in> set (map fst (validators ?s)). \<exists>ok. fst (validateField retypedHost f ?s) = Inr ok"
    unfolding retypedHost_def by (rule page_no_throw [OF v pw])
  have c: "validateField retypedHost (js ''confirmPassword'') ?s
             = (Inr False, showError (js ''confirmPassword'') msgConfirmMismatch ?s)"
    unfolding retypedHost_def using page_fields(2) [OF v pw] by (simp add: js_inject)
  have t: "validateField retypedHost (js ''terms'') ?s = (Inr True, clearError (js ''terms'') ?s)"
    unfolding retypedHost_def using page_fields(1) [OF v pw] confirm_registered by blast
  note T = validateForm_conjunction [of ?s retypedHost]
  from conjunct1 [OF T, THEN mp, OF nt] obtain s' where
    r: "validateForm retypedHost ?s =
          (Inr (\<forall>f \<in> set (map fst (validators ?s)). fst (validateField retypedHost f ?s) = Inr True), s')"
    and e: "\<forall>f \<in> set (map fst (validators ?s)).
              map_of (errors s') f = map_of (errors (snd (validateField retypedHost f ?s))) f"
    by blast
  have mc: "js ''confirmPassword'' \<in> set (map fst (validators ?s))"
    and mt: "js ''terms'' \<in> set (map fst (validators ?s))"
    unfolding v by (rule confirm_registered)+
  have "\<not> (\<forall>f \<in> set (map fst (validators ?s)). fst (validateField retypedHost f ?s) = Inr True)"
  proof
    assume "\<forall>f \<in> set (map fst (validators ?s)). fst (validateField retypedHost f ?s) = Inr True"
    from bspec [OF this mc] c show False by simp
  qed
  then have 1: "fst (validateForm retypedHost ?s) = Inr False" using r by simp
  have 2: "map_of (errors s') (js ''confirmPassword'') = Some msgConfirmMismatch"
    using bspec [OF e mc] c by (simp add: showError_def update_conv')
  have 3: "map_of (errors s') (js ''terms'') = None"
    using bspec [OF e mt] t by (simp add: clearError_def delete_conv')
  have 4: "fst (validateField quitoEvening (js ''terms'') ?s) = Inl TypeError"
    by (simp add: validateField_def v setup_lookup rule_def validateCheckbox_def
        quitoEvening_def emptyDocument_def)
  then have "\<exists>f \<in> set (map fst (validators ?s)). \<exists>e. fst (validateField quitoEvening f ?s) = Inl e"
    using mt by blast
  from conjunct2 [OF validateForm_conjunction [of ?s quitoEvening], THEN mp, OF this]
  obtain x s'' where "validateForm quitoEvening ?s = (Inl x, s'')" by blast
  then have 5: "fst (validateForm quitoEvening ?s) = Inl TypeError" by (cases x) simp
  from 1 2 3 4 5 c t r show ?thesis by simp
qed

lemma validateField_twice:
  "validateField H f (snd (validateField H f s)) = validateField H f s"
proof (cases "map_of (validators s) f")
  case None
  then show ?thesis by (simp add: validateField_def)
next
  case (Some d)
  show ?thesis
  proof (cases "case validate d of None \<Rightarrow> Inr None
                | Some g \<Rightarrow> g H (fieldValue (dom H) f)")
    case (Inl e)
    then show ?thesis using Some by (simp add: validateField_def)
  next
    case (Inr err)
    show ?thesis
    proof (cases "truthy err")
      case True
      then show ?thesis using Some Inr
        by (simp add: validateField_def showError_def)
    next
      case False
      then show ?thesis using Some Inr
        by (simp add: validateField_def clearError_def delete_idem)
    qed
  qed
qed

lemma setup_validators_dom:
  assumes "map_of setupValidators f = Some d" and "f \<noteq> js ''birthDate''"
    and "dom H' = dom H"
  shows "(case validate d of None \<Rightarrow> Inr None | Some g \<Rightarrow> g H' v)
       = (case validate d of None \<Rightarrow> Inr None | Some g \<Rightarrow> g H v)"
  using assms
  by (auto simp: setupValidators_def rule_def validateConfirmPassword_def
      validateRadioGroup_def validateCheckboxGroup_def validateFile_def validateCheckbox_def
      split: if_splits)

lemma validateField_dom_cong:
  assumes "validators t = setupValidators" and "f \<noteq> js ''birthDate''"
    and "dom H' = dom H"
  shows "validateField H' f t = validateField H f t"
proof (cases "map_of setupValidators f")
  case None
  then show ?thesis using assms(1) by (simp add: validateField_def)
next
  case (Some d)
  have "(case validate d of None \<Rightarrow> Inr None | Some g \<Rightarrow> g H' (fieldValue (dom H') f))
      = (case validate d of None \<Rightarrow> Inr None | Some g \<Rightarrow> g H (fieldValue (dom H) f))"
    unfolding assms(3) by (rule setup_validators_dom [OF Some assms(2,3)])
  then show ?thesis using assms(1) Some by (simp add: validateField_def)
qed

lemma birthday_clock:
  "validateBirthDate (birthdayPage 1793750399999) (js ''2008-11-04'') = Some msgBirthAdult"
  "validateBirthDate (birthdayPage 1793750400000) (js ''2008-11-04'') = None"
proof -
  have "validateBirthDate (quitoAt 1793750399999) (js ''2008-11-04'') = Some msgBirthAdult"
    by code_simp
  then show "validateBirthDate (birthdayPage 1793750399999) (js ''2008-11-04'') = Some msgBirthAdult"
    by (simp add: birthdayPage_def)
  have "validateBirthDate (quitoAt 1793750400000) (js ''2008-11-04'') = None"
    by code_simp
  then show "validateBirthDate (birthdayPage 1793750400000) (js ''2008-11-04'') = None"
    by (simp add: birthdayPage_def)
qed

lemma birthday_value:
  "fieldValue (dom (birthdayPage now)) (js ''birthDate'') = js ''2008-11-04''"
  by (simp add: birthdayPage_def fieldValue_def formControls_def control_def)

lemma msgBirthAdult_not_Nil: "msgBirthAdult \<noteq> []"
  by (simp add: msgBirthAdult_def js_Nil)

text \<open>
  Claim C9, as the code has it. \<^verbatim>\<open>validateField\<close> is idempotent as long as what the
  validator reads stays the same: with the same host (the values of the fields and the
  readings of the clock), a second call in the state the first call left returns the same
  result and leaves that state as it is, for every field identifier. For every field of
  the registry but \<^verbatim>\<open>birthDate\<close> the same document is enough, whatever the clock shows
  at the second call.
\<close>

theorem validateField_idempotent_same_host:
  "validateField H f (snd (validateField H f s)) = validateField H f s
   \<and> (validators s = setupValidators \<and> f \<noteq> js ''birthDate'' \<and> dom H' = dom H \<longrightarrow>
        validateField H' f (snd (validateField H f s)) = validateField H f s)"
proof -
  have "validateField H' f (snd (validateField H f s)) = validateField H f s"
    if "validators s = setupValidators" "f \<noteq> js ''birthDate''" "dom H' = dom H"
  proof -
    have "validators (snd (validateField H f s)) = setupValidators" using that(1) by simp
    from validateField_dom_cong [OF this that(2,3)]
    show ?thesis by (simp add: validateField_twice)
  qed
  then show ?thesis using validateField_twice [of H f s] by blast
qed

theorem validateField_idempotent_same_host_witness:
  "dom (retypedHost\<lparr>nowToday := 1793750400000\<rparr>) = dom retypedHost
   \<and> js ''confirmPassword'' \<noteq> js ''birthDate''
   \<and> validateField retypedHost (js ''confirmPassword'') newFormValidator
     = (Inr False, showError (js ''confirmPassword'') msgConfirmMismatch newFormValidator)
   \<and> validateField (retypedHost\<lparr>nowToday := 1793750400000\<rparr>) (js ''confirmPassword'')
        (showError (js ''confirmPassword'') msgConfirmMismatch newFormValidator)
     = (Inr False, showError (js ''confirmPassword'') msgConfirmMismatch newFormValidator)
   \<and> validateField retypedHost (js ''confirmPassword'')
        (showError (js ''confirmPassword'') msgConfirmMismatch newFormValidator)
     = (Inr False, showError (js ''confirmPassword'') msgConfirmMismatch newFormValidator)"
proof -
  let ?H' = "retypedHost\<lparr>nowToday := 1793750400000\<rparr>"
  have pw: "validatePassword (js ''Zyxwvu9?'') = None" by (rule valid_password)
  have c: "validateField retypedHost (js ''confirmPassword'') newFormValidator
             = (Inr False, showError (js ''confirmPassword'') msgConfirmMismatch newFormValidator)"
    unfolding retypedHost_def using page_fields(2) [OF new_validators(1) pw]
    by (simp add: js_inject)
  have d: "dom ?H' = dom retypedHost" by simp
  have n: "js ''confirmPassword'' \<noteq> js ''birthDate''" by (simp add: js_inject)
  note T = validateField_idempotent_same_host
    [of retypedHost "js ''confirmPassword''" newFormValidator ?H']
  from T c have 1: "validateField retypedHost (js ''confirmPassword'')
        (showError (js ''confirmPassword'') msgConfirmMismatch newFormValidator)
     = (Inr False, showError (js ''confirmPassword'') msgConfirmMismatch newFormValidator)"
    by simp
  from T c d n new_validators(1) have 2: "validateField ?H' (js ''confirmPassword'')
        (showError (js ''confirmPassword'') msgConfirmMismatch newFormValidator)
     = (Inr False, showError (js ''confirmPassword'') msgConfirmMismatch newFormValidator)"
    by simp
  from d n c 1 2 show ?thesis by (intro conjI)
qed

text \<open>
  The claim as stated fails for \<^verbatim>\<open>birthDate\<close>, whose rule reads the clock: with the
  value 2008-11-04 unchanged, a call one millisecond before 19:00 on 3 November 2026 in
  Quito stores the under-18 message and returns \<^verbatim>\<open>false\<close>, and the next call, at 19:00,
  returns \<^verbatim>\<open>true\<close> and removes it.
\<close>

theorem validateField_clock_counterexample:
  "dom (birthdayPage 1793750399999) = dom (birthdayPage 1793750400000)
   \<and> fieldValue (dom (birthdayPage 1793750399999)) (js ''birthDate'') = js ''2008-11-04''
   \<and> fieldValue (dom (birthdayPage 1793750400000)) (js ''birthDate'') = js ''2008-11-04''
   \<and> validateField (birthdayPage 1793750399999) (js ''birthDate'') newFormValidator
       = (Inr False, showError (js ''birthDate'') msgBirthAdult newFormValidator)
   \<and> validateField (birthdayPage 1793750400000) (js ''birthDate'')
         (showError (js ''birthDate'') msgBirthAdult newFormValidator)
       = (Inr True, clearError (js ''birthDate'')
            (showError (js ''birthDate'') msgBirthAdult newFormValidator))
   \<and> map_of (errors (showError (js ''birthDate'') msgBirthAdult newFormValidator))
         (js ''birthDate'') = Some msgBirthAdult
   \<and> map_of (errors (clearError (js ''birthDate'')
         (showError (js ''birthDate'') msgBirthAdult newFormValidator))) (js ''birthDate'') = None"
proof -
  let ?s1 = "showError (js ''birthDate'') msgBirthAdult newFormValidator"
  have v0: "validators newFormValidator = setupValidators" by (rule new_validators(1))
  have v1: "validators ?s1 = setupValidators" by (simp add: showError_def new_validators)
  have 1: "dom (birthdayPage 1793750399999) = dom (birthdayPage 1793750400000)"
    by (simp add: birthdayPage_def)
  have 2: "validateField (birthdayPage 1793750399999) (js ''birthDate'') newFormValidator
       = (Inr False, ?s1)"
    by (simp add: validateField_setup [OF v0 setup_lookup(4)] birthday_value birthday_clock
        truthy_def msgBirthAdult_not_Nil)
  have 3: "validateField (birthdayPage 1793750400000) (js ''birthDate'') ?s1
       = (Inr True, clearError (js ''birthDate'') ?s1)"
    by (simp add: validateField_setup [OF v1 setup_lookup(4)] birthday_value birthday_clock
        truthy_def)
  have 4: "map_of (errors ?s1) (js ''birthDate'') = Some msgBirthAdult"
    by (simp add: showError_def update_conv')
  have 5: "map_of (errors (clearError (js ''birthDate'') ?s1)) (js ''birthDate'') = None"
    by (simp add: clearError_def delete_conv')
  from 1 2 3 4 5 birthday_value show ?thesis by (intro conjI)
qed

text \<open>
  Claim C10. For a field identifier that is not in the registry, \<^verbatim>\<open>validateField\<close>
  returns \<^verbatim>\<open>true\<close> and leaves the state as it is; and in every state the system reaches,
  the registry is the one \<^verbatim>\<open>setupValidators\<close> built and every key of the error map is a
  key of the registry.
\<close>

theorem unregistered_field_ignored:
  "(map_of (validators s) f = None \<longrightarrow> validateField H f s = (Inr True, s))
   \<and> (reachable sys \<longrightarrow>
        validators (fv sys) = setupValidators
        \<and> fst ` set (errors (fv sys)) \<subseteq> fst ` set (validators (fv sys)))"
proof -
  have "map_of (validators s) f = None \<longrightarrow> validateField H f s = (Inr True, s)"
    by (simp add: validateField_def)
  moreover have "reachable sys \<longrightarrow>
        validators (fv sys) = setupValidators
        \<and> fst ` set (errors (fv sys)) \<subseteq> fst ` set (validators (fv sys))"
    using reachable_registered [of sys] by (auto simp: registered_def)
  ultimately show ?thesis by blast
qed

theorem unregistered_field_ignored_witness:
  "map_of (validators newFormValidator) (js ''nickname'') = None
   \<and> validateField blankHost (js ''nickname'') newFormValidator = (Inr True, newFormValidator)
   \<and> reachable (step retypedHost CallValidateForm initial)
   \<and> map_of (errors (fv (step retypedHost CallValidateForm initial))) (js ''confirmPassword'')
       = Some msgConfirmMismatch
   \<and> fst ` set (errors (fv (step retypedHost CallValidateForm initial)))
       \<subseteq> fst ` set setupValidators"
proof -
  let ?sys = "step retypedHost CallValidateForm initial"
  have n: "map_of (validators newFormValidator) (js ''nickname'') = None"
    by (simp add: new_validators setupValidators_def js_inject)
  have r: "reachable ?sys" by (intro reachable.event reachable.start) simp
  have pw: "validatePassword (js ''Zyxwvu9?'') = None" by (rule valid_password)
  note v = new_validators(1)
  have nt: "\<forall>f \<in> set (map fst (validators newFormValidator)).
              \<exists>ok. fst (validateField retypedHost f newFormValidator) = Inr ok"
    unfolding retypedHost_def by (rule page_no_throw [OF v pw])
  have c: "validateField retypedHost (js ''confirmPassword'') newFormValidator
             = (Inr False, showError (js ''confirmPassword'') msgConfirmMismatch newFormValidator)"
    unfolding retypedHost_def using page_fields(2) [OF v pw] by (simp add: js_inject)
  have mc: "js ''confirmPassword'' \<in> set (map fst (validators newFormValidator))"
    unfolding v by (rule confirm_registered(1))
  have sub: "set (map fst (validators newFormValidator)) \<subseteq> fst ` set (validators newFormValidator)"
    by simp
  have "map_of (errors (snd (visitAll retypedHost (map fst (validators newFormValidator))
                 newFormValidator))) (js ''confirmPassword'')
        = map_of (errors (snd (validateField retypedHost (js ''confirmPassword'')
                 newFormValidator))) (js ''confirmPassword'')"
    using bspec [OF conjunct1 [OF visitAll_entries [OF nt sub]] mc] .
  moreover have "snd (validateForm retypedHost newFormValidator)
        = snd (visitAll retypedHost (map fst (validators newFormValidator)) newFormValidator)"
    using validateFormLoop_visitAll [OF nt, of True] by (simp add: validateForm_def)
  ultimately have e: "map_of (errors (fv ?sys)) (js ''confirmPassword'') = Some msgConfirmMismatch"
    using c by (simp add: initial_def showError_def update_conv')
  note T = unregistered_field_ignored [of newFormValidator "js ''nickname''" blankHost ?sys]
  from T n have a: "validateField blankHost (js ''nickname'') newFormValidator
                     = (Inr True, newFormValidator)" by blast
  from T r have b: "validators (fv ?sys) = setupValidators"
    and k: "fst ` set (errors (fv ?sys)) \<subseteq> fst ` set (validators (fv ?sys))" by blast+
  from n a r e k [unfolded b] show ?thesis by (intro conjI)
qed

text \<open>
  Claim C8. The confirmation is compared with the value the password field has when the
  confirmation is validated: with a password field on the page, the result is an error
  unless the confirmation is not empty and equals that value. Validating any other field,
  the password field included, leaves the error stored for the confirmation as it is, and
  so does every \<^verbatim>\<open>input\<close> or \<^verbatim>\<open>change\<close> event of another field.
\<close>

theorem confirmPassword_live_no_cascade:
  "(byId (dom H) (js ''password'') = Some p \<longrightarrow>
      validateConfirmPassword H v =
        Inr (if v = [] then Some msgConfirmRequired
             else if v \<noteq> elValue p then Some msgConfirmMismatch else None))
   \<and> (validators s = setupValidators \<and> byId (dom H) (js ''password'') = Some p \<longrightarrow>
        fst (validateField H (js ''confirmPassword'') s)
          = Inr (fieldValue (dom H) (js ''confirmPassword'') \<noteq> []
                 \<and> fieldValue (dom H) (js ''confirmPassword'') = elValue p))
   \<and> (f \<noteq> js ''confirmPassword'' \<longrightarrow>
        map_of (errors (snd (validateField H f s))) (js ''confirmPassword'')
          = map_of (errors s) (js ''confirmPassword''))
   \<and> (f \<noteq> js ''confirmPassword'' \<and> e \<in> {InputEvent f, ChangeEvent f b, CallValidateField f} \<longrightarrow>
        map_of (errors (fv (step H e sys))) (js ''confirmPassword'')
          = map_of (errors (fv sys)) (js ''confirmPassword''))"
proof -
  have 1: "byId (dom H) (js ''password'') = Some p \<longrightarrow>
      validateConfirmPassword H v =
        Inr (if v = [] then Some msgConfirmRequired
             else if v \<noteq> elValue p then Some msgConfirmMismatch else None)"
    by (simp add: validateConfirmPassword_def)
  have 2: "validators s = setupValidators \<and> byId (dom H) (js ''password'') = Some p \<longrightarrow>
        fst (validateField H (js ''confirmPassword'') s)
          = Inr (fieldValue (dom H) (js ''confirmPassword'') \<noteq> []
                 \<and> fieldValue (dom H) (js ''confirmPassword'') = elValue p)"
    by (simp add: validateField_def setup_lookup rule_def validateConfirmPassword_def
        truthy_def confirm_messages)
  have 3: "map_of (errors (snd (validateField H f s))) (js ''confirmPassword'')
          = map_of (errors s) (js ''confirmPassword'')" if "f \<noteq> js ''confirmPassword''" for s
    using that validateField_other [of "js ''confirmPassword''" f H s] by simp
  have 4: "f \<noteq> js ''confirmPassword'' \<and> e \<in> {InputEvent f, ChangeEvent f b, CallValidateField f} \<longrightarrow>
        map_of (errors (fv (step H e sys))) (js ''confirmPassword'')
          = map_of (errors (fv sys)) (js ''confirmPassword'')"
    using 3 [of "fv sys"] by (auto simp: onField_def)
  from 1 2 3 4 show ?thesis by blast
qed

theorem confirmPassword_live_no_cascade_witness:
  "fst (validateField filledHost (js ''confirmPassword'') newFormValidator) = Inr True
   \<and> fst (validateField retypedHost (js ''confirmPassword'') newFormValidator) = Inr False
   \<and> js ''password'' \<noteq> js ''confirmPassword''
   \<and> map_of (errors (fv (step retypedHost (InputEvent (js ''password''))
                          (step filledHost (InputEvent (js ''confirmPassword'')) initial))))
        (js ''confirmPassword'')
      = map_of (errors (fv (step filledHost (InputEvent (js ''confirmPassword'')) initial)))
          (js ''confirmPassword'')"
proof -
  let ?c = "js ''confirmPassword''"
  let ?p = "control (js ''Abcdef1!'')" and ?q = "control (js ''Zyxwvu9?'')"
  have pf: "byId (dom filledHost) (js ''password'') = Some ?p"
    and pr: "byId (dom retypedHost) (js ''password'') = Some ?q"
    by (simp_all add: filledHost_def retypedHost_def pageHost_def filledDocument_def
        formControls_def js_inject)
  have vf: "fieldValue (dom filledHost) ?c = js ''Abcdef1!''"
    and vr: "fieldValue (dom retypedHost) ?c = js ''Abcdef1!''"
    unfolding filledHost_def retypedHost_def by (simp_all add: page_values)
  have ne: "js ''password'' \<noteq> ?c" by (simp add: js_inject)
  note T = confirmPassword_live_no_cascade
  have 1: "fst (validateField filledHost ?c newFormValidator) = Inr True"
    using T [of filledHost ?p _ newFormValidator] pf vf new_validators(1)
    by (simp add: control_def js_Nil)
  have 2: "fst (validateField retypedHost ?c newFormValidator) = Inr False"
    using T [of retypedHost ?q _ newFormValidator] pr vr new_validators(1)
    by (simp add: control_def js_inject)
  have 3: "map_of (errors (fv (step retypedHost (InputEvent (js ''password''))
                          (step filledHost (InputEvent ?c) initial)))) ?c
      = map_of (errors (fv (step filledHost (InputEvent ?c) initial))) ?c"
    using T [of retypedHost _ _ _ "js ''password''" "InputEvent (js ''password'')" _
             "step filledHost (InputEvent ?c) initial"] ne
    by simp
  from 1 2 3 ne show ?thesis by simp
qed

text \<open>
  Claim C3. In every state the system reaches, at most one call of \<^verbatim>\<open>handleSubmit\<close> is
  suspended on the transport, and the flag \<^verbatim>\<open>isSubmitting\<close> is set exactly then. A
  \<^verbatim>\<open>submit\<close> event that comes while one is suspended leaves the whole state as it is: no
  run of \<^verbatim>\<open>validateForm\<close>, no change of the errors, no call of the transport. The
  transport is only ever called by a \<^verbatim>\<open>submit\<close> event that finds no call suspended.
\<close>

theorem submit_single_flight:
  assumes "reachable sys"
  shows "pending sys \<le> 1
       \<and> (isSubmitting (fv sys) \<longleftrightarrow> pending sys = 1)
       \<and> (0 < pending sys \<longrightarrow> step H SubmitEvent sys = sys)
       \<and> (transportCalls (step H e sys) \<noteq> transportCalls sys \<longrightarrow>
            e = SubmitEvent \<and> pending sys = 0 \<and> pending (step H e sys) = 1
            \<and> transportCalls (step H e sys) = transportCalls sys + 1)"
proof -
  from assms have sf: "singleFlight sys" by (rule reachable_singleFlight)
  have 1: "pending sys \<le> 1" and 2: "isSubmitting (fv sys) \<longleftrightarrow> pending sys = 1"
    using sf by (simp_all add: singleFlight_def)
  have 3: "0 < pending sys \<longrightarrow> step H SubmitEvent sys = sys"
    using 1 2 by (auto simp: handleSubmit_def)
  have 4: "transportCalls (step H e sys) \<noteq> transportCalls sys \<longrightarrow>
            e = SubmitEvent \<and> pending sys = 0 \<and> pending (step H e sys) = 1
            \<and> transportCalls (step H e sys) = transportCalls sys + 1"
    using step_transport [of H e sys] 1 2 by auto
  from 1 2 3 4 show ?thesis by blast
qed

theorem submit_single_flight_witness:
  "reachable (step filledHost SubmitEvent initial)
   \<and> pending (step filledHost SubmitEvent initial) = 1
   \<and> transportCalls (step filledHost SubmitEvent initial) = 1
   \<and> formRuns (step filledHost SubmitEvent initial) = 1
   \<and> step retypedHost SubmitEvent (step filledHost SubmitEvent initial)
       = step filledHost SubmitEvent initial"
proof -
  let ?s0 = "newFormValidator\<lparr>isSubmitting := True\<rparr>"
  let ?sys = "step filledHost SubmitEvent initial"
  have pw: "validatePassword (js ''Abcdef1!'') = None" by (rule valid_password)
  note v = new_validators(2) [of True]
  have nt: "\<forall>f \<in> set (map fst (validators ?s0)). \<exists>ok. fst (validateField filledHost f ?s0) = Inr ok"
    unfolding filledHost_def by (rule page_no_throw [OF v pw])
  have all: "\<forall>f \<in> set (map fst (validators ?s0)). fst (validateField filledHost f ?s0) = Inr True"
    unfolding filledHost_def using page_results [OF v pw] by simp
  have "fst (visitAll filledHost (map fst (validators ?s0)) ?s0)
          = map (\<lambda>f. fst (validateField filledHost f ?s0)) (map fst (validators ?s0))"
    using validateFormLoop_visitAll [OF nt, of True] by simp
  then have "list_all (\<lambda>r. r = Inr True) (fst (visitAll filledHost (map fst (validators ?s0)) ?s0))"
    using all by (simp add: list_all_iff)
  then have vf: "fst (validateForm filledHost ?s0) = Inr True"
    using validateFormLoop_visitAll [OF nt, of True] by (simp add: validateForm_def)
  have btn: "hasSubmitButton (dom filledHost)"
    by (simp add: filledHost_def pageHost_def filledDocument_def formControls_def)
  have idle: "\<not> isSubmitting (fv initial)" "fv initial\<lparr>isSubmitting := True\<rparr> = ?s0"
    "pending initial = 0" "transportCalls initial = 0" "formRuns initial = 0"
    by (simp_all add: initial_def newFormValidator_def)
  have p: "pending ?sys = 1 \<and> transportCalls ?sys = 1 \<and> formRuns ?sys = 1"
    using vf btn idle by (cases "validateForm filledHost ?s0") (simp add: handleSubmit_def)
  have r: "reachable ?sys" by (intro reachable.event reachable.start) simp
  from submit_single_flight [OF r, of retypedHost SubmitEvent] p r show ?thesis by simp
qed

end
